theory Spec2Isabelle
  imports Complex_Main
begin

section \<open>Strings and paths\<close>

text \<open>
  JavaScript strings are modelled as \<^typ>\<open>string\<close> (lists of \<^typ>\<open>char\<close>): the model
  covers the code units below 256. Of the line terminators of ECMAScript only line feed
  and carriage return are in that range, and of its white space the six ASCII characters
  and the no-break space.
\<close>

type_synonym fpath = string

definition startsWith :: "string \<Rightarrow> string \<Rightarrow> bool" where
  "startsWith s p = (take (length p) s = p)"

definition endsWith :: "string \<Rightarrow> string \<Rightarrow> bool" where
  "endsWith s p = (length p \<le> length s \<and> drop (length s - length p) s = p)"

text \<open>\<open>String.prototype.split\<close> with a one-character separator.\<close>

fun splitOn :: "char \<Rightarrow> string \<Rightarrow> string list" where
  "splitOn sep [] = [[]]"
| "splitOn sep (c # cs) =
     (if c = sep then [] # splitOn sep cs
      else (case splitOn sep cs of [] \<Rightarrow> [[c]] | w # ws \<Rightarrow> (c # w) # ws))"

text \<open>\<open>Array.prototype.join\<close> with a one-character separator.\<close>

fun joinWith :: "char \<Rightarrow> string list \<Rightarrow> string" where
  "joinWith sep [] = []"
| "joinWith sep [w] = w"
| "joinWith sep (w # v # ws) = w @ sep # joinWith sep (v # ws)"

text \<open>The white space of \<open>String.prototype.trim\<close> and of the class \<open>\s\<close>.\<close>

definition isSpaceChar :: "char \<Rightarrow> bool" where
  "isSpaceChar c = (c = CHR '' '' \<or> c = CHR 0x09 \<or> c = CHR 0x0A \<or> c = CHR 0x0B
     \<or> c = CHR 0x0C \<or> c = CHR 0x0D \<or> c = CHR 0xA0)"

definition jsTrim :: "string \<Rightarrow> string" where
  "jsTrim s = rev (dropWhile isSpaceChar (rev (dropWhile isSpaceChar s)))"

section \<open>GitignoreParser\<close>

record IgnoreRule =
  pattern :: string
  isNegation :: bool
  isDirectory :: bool

text \<open>
  One iteration of the loop of \<open>loadGitignore\<close>: the line is trimmed, empty lines and
  comments are skipped, a leading \<open>!\<close> and a trailing \<open>/\<close> are recorded and removed.
\<close>

definition parseLine :: "string \<Rightarrow> IgnoreRule option" where
  "parseLine line =
     (let trimmed = jsTrim line in
      if trimmed = [] \<or> startsWith trimmed ''#'' then None
      else
        let neg = startsWith trimmed ''!'';
            dir = endsWith trimmed ''/'';
            p1 = (if neg then drop 1 trimmed else trimmed);
            p2 = (if dir then take (length p1 - 1) p1 else p1)
        in Some \<lparr>pattern = p2, isNegation = neg, isDirectory = dir\<rparr>)"

text \<open>
  \<open>loadGitignore\<close>: \<open>None\<close> stands for a missing or unreadable \<open>.gitignore\<close>, which
  leaves the pattern list empty.
\<close>

definition loadGitignore :: "string option \<Rightarrow> IgnoreRule list" where
  "loadGitignore content =
     (case content of
        None \<Rightarrow> []
      | Some text \<Rightarrow> List.map_filter parseLine (splitOn (CHR 0x0A) text))"

text \<open>
  \<open>globMatch\<close> builds the regular expression \<open>^...$\<close> from the pattern: every
  character is escaped to a literal except \<open>*\<close>, which becomes \<open>.*\<close>, and \<open>?\<close>, which
  becomes \<open>.\<close>. The dot of a JavaScript regular expression matches any character
  but a line terminator.
\<close>

definition lineTerminator :: "char \<Rightarrow> bool" where
  "lineTerminator c = (c = CHR 0x0A \<or> c = CHR 0x0D)"

datatype globTok = Lit char | AnyChar | AnyRun

definition globToken :: "char \<Rightarrow> globTok" where
  "globToken c =
     (if c = CHR ''*'' then AnyRun else if c = CHR ''?'' then AnyChar else Lit c)"

fun regexTest :: "globTok list \<Rightarrow> string \<Rightarrow> bool" where
  "regexTest [] t = (t = [])"
| "regexTest (Lit c # ps) [] = False"
| "regexTest (Lit c # ps) (d # ds) = (d = c \<and> regexTest ps ds)"
| "regexTest (AnyChar # ps) [] = False"
| "regexTest (AnyChar # ps) (d # ds) = (\<not> lineTerminator d \<and> regexTest ps ds)"
| "regexTest (AnyRun # ps) [] = regexTest ps []"
| "regexTest (AnyRun # ps) (d # ds) =
     (regexTest ps (d # ds) \<or> (\<not> lineTerminator d \<and> regexTest (AnyRun # ps) ds))"

definition globMatch :: "string \<Rightarrow> string \<Rightarrow> bool" where
  "globMatch text pat = regexTest (map globToken pat) text"

definition normalizeSlashes :: "string \<Rightarrow> string" where
  "normalizeSlashes s = map (\<lambda>c. if c = CHR 0x5C then CHR ''/'' else c) s"

definition matchesPattern :: "string \<Rightarrow> string \<Rightarrow> bool" where
  "matchesPattern filePath pat =
     (let normalizedPath = normalizeSlashes filePath;
          normalizedPattern = normalizeSlashes pat
      in if startsWith normalizedPattern ''/''
         then globMatch normalizedPath (drop 1 normalizedPattern)
         else
           let pathSegments = splitOn (CHR ''/'') normalizedPath
           in if globMatch normalizedPath normalizedPattern then True
              else list_ex
                     (\<lambda>i. globMatch (joinWith (CHR ''/'') (drop i pathSegments)) normalizedPattern)
                     [0 ..< length pathSegments])"

text \<open>
  \<open>shouldIgnore\<close>. The two reads of the environment are parameters: \<open>relativePath\<close> is
  \<open>path.relative(projectRoot, filePath)\<close> and \<open>isDir\<close> says whether the path exists and
  is a directory. The accumulator is the local variable \<open>shouldIgnore\<close> of the source.
\<close>

fun shouldIgnoreLoop :: "IgnoreRule list \<Rightarrow> string \<Rightarrow> bool \<Rightarrow> bool \<Rightarrow> bool" where
  "shouldIgnoreLoop [] relativePath isDir acc = acc"
| "shouldIgnoreLoop (r # rs) relativePath isDir acc =
     (if isDirectory r \<and> \<not> isDir then shouldIgnoreLoop rs relativePath isDir acc
      else if matchesPattern relativePath (pattern r)
           then shouldIgnoreLoop rs relativePath isDir (\<not> isNegation r)
           else shouldIgnoreLoop rs relativePath isDir acc)"

definition shouldIgnore :: "IgnoreRule list \<Rightarrow> string \<Rightarrow> bool \<Rightarrow> bool" where
  "shouldIgnore rules relativePath isDir = shouldIgnoreLoop rules relativePath isDir False"

text \<open>
  The reading of the specification: a rule decides for a path when it is not a
  directory-only rule met on a non-directory and its pattern matches.
\<close>

definition ruleMatches :: "string \<Rightarrow> bool \<Rightarrow> IgnoreRule \<Rightarrow> bool" where
  "ruleMatches relativePath isDir r =
     (if isDirectory r \<and> \<not> isDir then False else matchesPattern relativePath (pattern r))"

definition lastMatchDecides :: "IgnoreRule list \<Rightarrow> string \<Rightarrow> bool \<Rightarrow> bool" where
  "lastMatchDecides rules relativePath isDir =
     (case filter (ruleMatches relativePath isDir) rules of
        [] \<Rightarrow> False
      | m # ms \<Rightarrow> \<not> isNegation (last (m # ms)))"

section \<open>ImportExtractor\<close>

text \<open>
  The extractor runs eight regular expressions with the global flag over the text of a
  file. The expressions are kept as syntax trees and run by one backtracking matcher:
  \<open>rxMatch r s caps\<close> lists, in the order in which a backtracking engine tries them,
  the ways in which \<open>r\<close> matches a prefix of \<open>s\<close>, each as the unread rest of \<open>s\<close>
  with the capture groups set so far.
\<close>

datatype charClass = Space | Word | WordOr string | AnyOf string | NoneOf string | Dot

definition isWordChar :: "char \<Rightarrow> bool" where
  "isWordChar c =
     (let n = of_char c :: nat
      in (48 \<le> n \<and> n \<le> 57) \<or> (65 \<le> n \<and> n \<le> 90) \<or> (97 \<le> n \<and> n \<le> 122) \<or> n = 95)"

fun inClass :: "charClass \<Rightarrow> char \<Rightarrow> bool" where
  "inClass Space c = isSpaceChar c"
| "inClass Word c = isWordChar c"
| "inClass (WordOr cs) c = (isWordChar c \<or> c \<in> set cs)"
| "inClass (AnyOf cs) c = (c \<in> set cs)"
| "inClass (NoneOf cs) c = (c \<notin> set cs)"
| "inClass Dot c = (\<not> lineTerminator c)"

definition lowerChar :: "char \<Rightarrow> char" where
  "lowerChar c =
     (let n = of_char c :: nat in if 65 \<le> n \<and> n \<le> 90 then char_of (n + 32) else c)"

text \<open>\<open>StrCI\<close> is a literal under the flag \<open>i\<close>; its text is written in lower case.\<close>

datatype rx =
    Eps
  | Cls charClass
  | Str string
  | StrCI string
  | Seq rx rx
  | Alt rx rx
  | Star rx
  | Plus rx
  | LazyStar rx
  | Grp nat rx

type_synonym captures = "(nat \<times> string) list"

text \<open>
  Greedy and lazy repetition of a matcher \<open>f\<close>. An iteration that consumes nothing is
  dropped, as ECMAScript does, so the length of the text bounds the iterations.
\<close>

primrec greedyIter :: "(string \<Rightarrow> captures \<Rightarrow> (string \<times> captures) list) \<Rightarrow> nat \<Rightarrow>
    string \<Rightarrow> captures \<Rightarrow> (string \<times> captures) list" where
  "greedyIter f 0 s caps = [(s, caps)]"
| "greedyIter f (Suc n) s caps =
     concat (map (\<lambda>(s', caps'). if length s' < length s then greedyIter f n s' caps' else [])
               (f s caps))
     @ [(s, caps)]"

primrec lazyIter :: "(string \<Rightarrow> captures \<Rightarrow> (string \<times> captures) list) \<Rightarrow> nat \<Rightarrow>
    string \<Rightarrow> captures \<Rightarrow> (string \<times> captures) list" where
  "lazyIter f 0 s caps = [(s, caps)]"
| "lazyIter f (Suc n) s caps =
     (s, caps) #
     concat (map (\<lambda>(s', caps'). if length s' < length s then lazyIter f n s' caps' else [])
               (f s caps))"

primrec rxMatch :: "rx \<Rightarrow> string \<Rightarrow> captures \<Rightarrow> (string \<times> captures) list" where
  "rxMatch Eps = (\<lambda>s caps. [(s, caps)])"
| "rxMatch (Cls k) =
     (\<lambda>s caps. case s of [] \<Rightarrow> [] | c # cs \<Rightarrow> if inClass k c then [(cs, caps)] else [])"
| "rxMatch (Str lit) =
     (\<lambda>s caps. if startsWith s lit then [(drop (length lit) s, caps)] else [])"
| "rxMatch (StrCI lit) =
     (\<lambda>s caps. if map lowerChar (take (length lit) s) = lit
                then [(drop (length lit) s, caps)] else [])"
| "rxMatch (Seq a b) =
     (\<lambda>s caps. concat (map (\<lambda>(s', caps'). rxMatch b s' caps') (rxMatch a s caps)))"
| "rxMatch (Alt a b) = (\<lambda>s caps. rxMatch a s caps @ rxMatch b s caps)"
| "rxMatch (Star a) = (\<lambda>s caps. greedyIter (rxMatch a) (length s) s caps)"
| "rxMatch (Plus a) =
     (\<lambda>s caps. concat (map (\<lambda>(s', caps'). greedyIter (rxMatch a) (length s') s' caps')
                         (rxMatch a s caps)))"
| "rxMatch (LazyStar a) = (\<lambda>s caps. lazyIter (rxMatch a) (length s) s caps)"
| "rxMatch (Grp n a) =
     (\<lambda>s caps. map (\<lambda>(s', caps'). (s', (n, take (length s - length s') s) # caps'))
                   (rxMatch a s caps))"

text \<open>Expressions that cannot match without reading a character.\<close>

fun consumes :: "rx \<Rightarrow> bool" where
  "consumes Eps = False"
| "consumes (Cls k) = True"
| "consumes (Str lit) = (lit \<noteq> [])"
| "consumes (StrCI lit) = (lit \<noteq> [])"
| "consumes (Seq a b) = (consumes a \<or> consumes b)"
| "consumes (Alt a b) = (consumes a \<and> consumes b)"
| "consumes (Star a) = False"
| "consumes (Plus a) = consumes a"
| "consumes (LazyStar a) = False"
| "consumes (Grp n a) = consumes a"

definition seqs :: "rx list \<Rightarrow> rx" where
  "seqs rs = foldr Seq rs Eps"

text \<open>
  \<open>RegExp.prototype.exec\<close> from \<open>lastIndex\<close>: the leftmost position at which the
  expression matches, with the engine's first match there. The result is the text after
  the match (the new \<open>lastIndex\<close>) and the capture groups.
\<close>

fun execFrom :: "rx \<Rightarrow> string \<Rightarrow> (string \<times> captures) option" where
  "execFrom r [] = (case rxMatch r [] [] of [] \<Rightarrow> None | m # _ \<Rightarrow> Some m)"
| "execFrom r (c # cs) =
     (case rxMatch r (c # cs) [] of [] \<Rightarrow> execFrom r cs | m # _ \<Rightarrow> Some m)"

text \<open>
  The loop \<open>while ((match = pattern.exec(content)) !== null)\<close>. A match that consumes
  nothing would leave \<open>lastIndex\<close> where it was and the loop would never end: the
  fuel runs out exactly then, and the result is \<open>None\<close>.
\<close>

primrec execLoop :: "nat \<Rightarrow> rx \<Rightarrow> string \<Rightarrow> captures list option" where
  "execLoop 0 r s = None"
| "execLoop (Suc n) r s =
     (case execFrom r s of
        None \<Rightarrow> Some []
      | Some (rest, caps) \<Rightarrow>
          (if length rest < length s then map_option ((#) caps) (execLoop n r rest)
           else None))"

definition execAll :: "rx \<Rightarrow> string \<Rightarrow> captures list option" where
  "execAll r s = execLoop (Suc (length s)) r s"

definition ws :: rx where "ws = Star (Cls Space)"
definition ws1 :: rx where "ws1 = Plus (Cls Space)"
definition quote :: rx where "quote = Cls (AnyOf [CHR 0x27, CHR 0x22, CHR 0x60])"
definition sourceArg :: "nat \<Rightarrow> rx" where
  "sourceArg n = Grp n (Plus (Cls (NoneOf [CHR 0x27, CHR 0x22, CHR 0x60])))"

text \<open>The four \<open>importPatterns\<close>, in the order of the source.\<close>

definition importPatterns :: "rx list" where
  "importPatterns =
     [seqs [Str ''import'', ws, Str ''{'', ws, Grp 1 (Star (Cls (NoneOf ''}''))), ws, Str ''}'',
            ws, Str ''from'', ws, quote, sourceArg 2, quote],
      seqs [Str ''import'', ws, Str ''*'', ws, Str ''as'', ws1, Grp 1 (Plus (Cls Word)), ws1,
            Str ''from'', ws, quote, sourceArg 2, quote],
      seqs [Str ''import'', ws1, Grp 1 (Plus (Cls Word)), ws1, Str ''from'', ws, quote,
            sourceArg 2, quote],
      seqs [Str ''import'', ws, quote, sourceArg 1, quote]]"

datatype ImportType = Import | Require | DynamicImport

text \<open>
  The three \<open>dynamicImportPatterns\<close>, each with the type that
  \<open>pattern.source.includes('require')\<close> selects for it.
\<close>

definition dynamicImportPatterns :: "(rx \<times> ImportType) list" where
  "dynamicImportPatterns =
     [(seqs [Str ''('', ws, Str '')'', ws, Str ''=>'', ws, Str ''import'', ws, Str ''('', ws,
             quote, sourceArg 1, quote, ws, Str '')''], DynamicImport),
      (seqs [Str ''import'', ws, Str ''('', ws, quote, sourceArg 1, quote, ws, Str '')''],
       DynamicImport),
      (seqs [Str ''require'', ws, Str ''('', ws, quote, sourceArg 1, quote, ws, Str '')''],
       Require)]"

definition requirePattern :: rx where
  "requirePattern =
     seqs [Alt (seqs [Alt (Str ''const'') (Alt (Str ''let'') (Str ''var'')), ws1,
                      LazyStar (Cls Dot)])
               (seqs [Plus (Cls (WordOr ''$_'')), ws]),
           Str ''='', ws, Str ''require'', ws, Str ''('', ws, quote, sourceArg 1, quote, ws,
           Str '')'']"

text \<open>\<open>match[n]\<close>: the last value captured by group \<open>n\<close>, if any.\<close>

definition grp :: "captures \<Rightarrow> nat \<Rightarrow> string option" where
  "grp caps n = map_of caps n"

text \<open>\<open>match[2] || match[1]\<close>; the empty string is falsy, as \<open>undefined\<close> is.\<close>

definition matchSource :: "captures \<Rightarrow> string" where
  "matchSource caps =
     (case grp caps 2 of
        Some s \<Rightarrow> (if s \<noteq> [] then s else (case grp caps 1 of Some t \<Rightarrow> t | None \<Rightarrow> []))
      | None \<Rightarrow> (case grp caps 1 of Some t \<Rightarrow> t | None \<Rightarrow> []))"

text \<open>
  The sources and types that \<open>extractImportsWithRegex\<close> pushes, in order: the import
  patterns, then the dynamic import patterns, then the require pattern. \<open>None\<close> is a
  loop that never ends.
\<close>

definition patternHits :: "rx \<Rightarrow> ImportType \<Rightarrow> string \<Rightarrow> (string \<times> ImportType) list option" where
  "patternHits r ty content =
     map_option (map (\<lambda>caps. (matchSource caps, ty))) (execAll r content)"

fun collectHits :: "(rx \<times> ImportType) list \<Rightarrow> string \<Rightarrow> (string \<times> ImportType) list option" where
  "collectHits [] content = Some []"
| "collectHits ((r, ty) # ps) content =
     (case patternHits r ty content of
        None \<Rightarrow> None
      | Some hs \<Rightarrow> map_option ((@) hs) (collectHits ps content))"

definition allPatterns :: "(rx \<times> ImportType) list" where
  "allPatterns =
     map (\<lambda>r. (r, Import)) importPatterns @ dynamicImportPatterns @ [(requirePattern, Require)]"

definition extractSources :: "string \<Rightarrow> (string \<times> ImportType) list option" where
  "extractSources content = collectHits allPatterns content"

section \<open>Paths and the file system\<close>

text \<open>
  Node's \<open>path\<close> module in its POSIX variant. \<open>normSegs\<close> is \<open>normalizeString\<close> on
  the segments of a path: empty and \<open>.\<close> segments vanish, \<open>..\<close> removes the segment
  before it, and is kept only where the path may rise above its start.
\<close>

fun normSegs :: "bool \<Rightarrow> string list \<Rightarrow> string list \<Rightarrow> string list" where
  "normSegs allowAboveRoot acc [] = rev acc"
| "normSegs allowAboveRoot acc (seg # rest) =
     (if seg = [] \<or> seg = ''.'' then normSegs allowAboveRoot acc rest
      else if seg = ''..'' then
        (case acc of
           [] \<Rightarrow> normSegs allowAboveRoot (if allowAboveRoot then [''..''] else []) rest
         | a # as \<Rightarrow>
             (if a = ''..''
              then normSegs allowAboveRoot (if allowAboveRoot then ''..'' # acc else acc) rest
              else normSegs allowAboveRoot as rest))
      else normSegs allowAboveRoot (seg # acc) rest)"

definition pathIsAbsolute :: "string \<Rightarrow> bool" where
  "pathIsAbsolute p = startsWith p ''/''"

definition pathNormalize :: "string \<Rightarrow> string" where
  "pathNormalize p =
     (if p = [] then ''.''
      else
        let isAbs = pathIsAbsolute p;
            trailing = endsWith p ''/'';
            body = joinWith (CHR ''/'') (normSegs (\<not> isAbs) [] (splitOn (CHR ''/'') p))
        in if body = [] then (if isAbs then ''/'' else if trailing then ''./'' else ''.'')
           else (if isAbs then ''/'' else []) @ body @ (if trailing then ''/'' else []))"

definition pathJoin :: "string list \<Rightarrow> string" where
  "pathJoin args =
     (let parts = filter (\<lambda>a. a \<noteq> []) args
      in if parts = [] then ''.'' else pathNormalize (joinWith (CHR ''/'') parts))"

text \<open>
  \<open>path.resolve\<close> reads its arguments from the right until one is absolute, and the
  working directory after them.
\<close>

fun resolveAcc :: "string list \<Rightarrow> string \<Rightarrow> string \<times> bool" where
  "resolveAcc [] acc = (acc, False)"
| "resolveAcc (p # ps) acc =
     (if p = [] then resolveAcc ps acc
      else if pathIsAbsolute p then (p @ ''/'' @ acc, True)
      else resolveAcc ps (p @ ''/'' @ acc))"

definition pathResolve :: "string \<Rightarrow> string list \<Rightarrow> string" where
  "pathResolve cwd args =
     (case resolveAcc (rev args @ [cwd]) [] of
        (joined, isAbs) \<Rightarrow>
          let body = joinWith (CHR ''/'') (normSegs (\<not> isAbs) [] (splitOn (CHR ''/'') joined))
          in if isAbs then ''/'' @ body else if body \<noteq> [] then body else ''.'')"

fun dropCommon :: "string list \<Rightarrow> string list \<Rightarrow> string list \<times> string list" where
  "dropCommon (a # as) (b # bs) = (if a = b then dropCommon as bs else (a # as, b # bs))"
| "dropCommon as bs = (as, bs)"

definition pathRelative :: "string \<Rightarrow> string \<Rightarrow> string \<Rightarrow> string" where
  "pathRelative cwd fromPath toPath =
     (let f = pathResolve cwd [fromPath];
          t = pathResolve cwd [toPath]
      in if f = t then []
         else
           (case dropCommon (filter (\<lambda>g. g \<noteq> []) (splitOn (CHR ''/'') f))
                            (filter (\<lambda>g. g \<noteq> []) (splitOn (CHR ''/'') t)) of
              (fs, ts) \<Rightarrow> joinWith (CHR ''/'') (replicate (length fs) ''..'' @ ts)))"

definition pathDirname :: "string \<Rightarrow> string" where
  "pathDirname p =
     (if p = [] then ''.''
      else
        let hasRoot = pathIsAbsolute p;
            upTo = dropWhile (\<lambda>c. c \<noteq> CHR ''/'')
                     (dropWhile (\<lambda>c. c = CHR ''/'') (rev (tl p)))
        in if upTo = [] then (if hasRoot then ''/'' else ''.'')
           else if hasRoot \<and> length upTo = 1 then ''//''
           else take (length upTo) p)"

definition pathBasename :: "string \<Rightarrow> string" where
  "pathBasename p =
     rev (takeWhile (\<lambda>c. c \<noteq> CHR ''/'') (dropWhile (\<lambda>c. c = CHR ''/'') (rev p)))"

text \<open>
  What the analyzer reads from its surroundings. \<open>fsReadFile\<close> is \<open>readFileSync\<close>
  (\<open>None\<close> when it throws) and \<open>processCwd\<close> is \<open>process.cwd()\<close>. Two results of code that no property below is about are
  taken as given: \<open>scannedFiles\<close> is the list \<open>getAllFiles(projectRoot)\<close> returns, or
  \<open>None\<close> when \<open>readdirSync\<close> throws inside it, and \<open>detectedSrcDir\<close> is the result
  of \<open>detectNuxtSrcDir(projectRoot)\<close>.
\<close>

record Env =
  fsExists :: "fpath \<Rightarrow> bool"
  fsIsFile :: "fpath \<Rightarrow> bool"
  fsIsDirectory :: "fpath \<Rightarrow> bool"
  fsReadFile :: "fpath \<Rightarrow> string option"
  processCwd :: fpath
  scannedFiles :: "fpath list option"
  detectedSrcDir :: string

text \<open>The fields of \<open>ImportAnalyzer\<close> that resolution reads, as set by both entry points.\<close>

record Analyzer =
  projectRoot :: fpath
  nuxtSrcDir :: string
  patterns :: "IgnoreRule list"

definition initAnalyzer :: "Env \<Rightarrow> fpath \<Rightarrow> Analyzer" where
  "initAnalyzer env rootDir =
     (let gitignorePath = pathJoin [rootDir, ''.gitignore'']
      in \<lparr>projectRoot = rootDir,
          nuxtSrcDir = detectedSrcDir env,
          patterns = loadGitignore
            (if fsExists env gitignorePath then fsReadFile env gitignorePath else None)\<rparr>)"

text \<open>\<open>GitignoreParser.shouldIgnore\<close> on a path of the file system.\<close>

definition shouldIgnorePath :: "Env \<Rightarrow> Analyzer \<Rightarrow> fpath \<Rightarrow> bool" where
  "shouldIgnorePath env an filePath =
     shouldIgnore (patterns an)
       (pathRelative (processCwd env) (projectRoot an) filePath)
       (fsExists env filePath \<and> fsIsDirectory env filePath)"

section \<open>ModuleResolver\<close>

definition extensions :: "string list" where
  "extensions = [[], ''.ts'', ''.js'', ''.tsx'', ''.jsx'', ''.vue'', ''.svelte'']"

text \<open>The first loop of \<open>resolveFilePath\<close>: the path with each extension.\<close>

fun probeFile :: "Env \<Rightarrow> Analyzer \<Rightarrow> fpath \<Rightarrow> string list \<Rightarrow> fpath option" where
  "probeFile env an filePath [] = None"
| "probeFile env an filePath (ext # exts) =
     (let fullPath = filePath @ ext
      in if fsExists env fullPath \<and> fsIsFile env fullPath
         then (if shouldIgnorePath env an fullPath then probeFile env an filePath exts
               else Some fullPath)
         else probeFile env an filePath exts)"

text \<open>The second loop: an index file inside the path.\<close>

fun probeIndex :: "Env \<Rightarrow> Analyzer \<Rightarrow> fpath \<Rightarrow> string list \<Rightarrow> fpath option" where
  "probeIndex env an filePath [] = None"
| "probeIndex env an filePath (ext # exts) =
     (let indexPath = pathJoin [filePath, ''index'' @ ext]
      in if fsExists env indexPath
         then (if shouldIgnorePath env an indexPath then probeIndex env an filePath exts
               else Some indexPath)
         else probeIndex env an filePath exts)"

definition resolveFilePath :: "Env \<Rightarrow> Analyzer \<Rightarrow> fpath \<Rightarrow> fpath" where
  "resolveFilePath env an filePath =
     (case probeFile env an filePath extensions of
        Some found \<Rightarrow> found
      | None \<Rightarrow>
          (case probeIndex env an filePath (tl extensions) of
             Some found \<Rightarrow> found
           | None \<Rightarrow> filePath))"

definition isProjectAlias :: "string \<Rightarrow> bool" where
  "isProjectAlias src =
     (startsWith src ''@/'' \<or> startsWith src ''~/'' \<or> startsWith src ''~~/'' \<or>
      startsWith src ''#app/'' \<or> startsWith src ''#imports'' \<or> startsWith src ''#components/'')"

text \<open>\<open>source.substring(source.indexOf('/') + 1)\<close>: the whole string when there is no slash.\<close>

definition afterFirstSlash :: "string \<Rightarrow> string" where
  "afterFirstSlash src =
     (if CHR ''/'' \<in> set src then drop 1 (dropWhile (\<lambda>c. c \<noteq> CHR ''/'') src) else src)"

definition resolveProjectAlias :: "Env \<Rightarrow> Analyzer \<Rightarrow> string \<Rightarrow> fpath \<Rightarrow> fpath option" where
  "resolveProjectAlias env an src rootDir =
     (if startsWith src ''@/'' then
        let withoutAlias = drop 2 src;
            srcPath = pathJoin [rootDir, nuxtSrcDir an, withoutAlias];
            aliasPath = (if fsExists env srcPath \<or> fsExists env (pathDirname srcPath)
                         then srcPath else pathJoin [rootDir, withoutAlias])
        in Some (resolveFilePath env an aliasPath)
      else if startsWith src ''~/'' \<or> startsWith src ''~~/'' then
        let withoutAlias = (if startsWith src ''~~/'' then drop 3 src else drop 2 src)
        in Some (resolveFilePath env an (pathJoin [rootDir, nuxtSrcDir an, withoutAlias]))
      else if startsWith src ''#app/'' \<or> startsWith src ''#imports'' \<or>
              startsWith src ''#components/'' then
        Some (resolveFilePath env an (pathJoin [rootDir, nuxtSrcDir an, afterFirstSlash src]))
      else None)"

record ImportInfo =
  source :: string
  importType :: ImportType
  isNodeModule :: bool
  resolvedPath :: "fpath option"

definition createImportInfo ::
    "Env \<Rightarrow> Analyzer \<Rightarrow> string \<Rightarrow> fpath \<Rightarrow> fpath \<Rightarrow> ImportType \<Rightarrow> ImportInfo" where
  "createImportInfo env an src fileDir rootDir ty =
     (let alias = isProjectAlias src;
          nodeModule = (\<not> startsWith src ''.'' \<and> \<not> pathIsAbsolute src \<and> \<not> alias)
      in \<lparr>source = src, importType = ty, isNodeModule = nodeModule,
          resolvedPath =
            (if nodeModule then None
             else if alias then resolveProjectAlias env an src rootDir
             else Some (resolveFilePath env an (pathResolve (processCwd env) [fileDir, src])))\<rparr>)"

section \<open>Extraction from one file\<close>

text \<open>
  \<open>String.prototype.match\<close> with the flag \<open>g\<close>: the texts of all matches, found from
  left to right; after an empty match the search moves on by one character.
\<close>

primrec matchTexts :: "nat \<Rightarrow> rx \<Rightarrow> string \<Rightarrow> string list" where
  "matchTexts 0 r s = []"
| "matchTexts (Suc n) r s =
     (case execFrom (Grp 0 r) s of
        None \<Rightarrow> []
      | Some (rest, caps) \<Rightarrow>
          (case grp caps 0 of
             None \<Rightarrow> []
           | Some m \<Rightarrow>
               (if m \<noteq> [] then m # matchTexts n r rest
                else (case rest of [] \<Rightarrow> [m] | _ # cs \<Rightarrow> m # matchTexts n r cs))))"

text \<open>\<open>String.prototype.replace\<close> with the flag \<open>g\<close> and the empty replacement.\<close>

primrec removeMatches :: "nat \<Rightarrow> rx \<Rightarrow> string \<Rightarrow> string" where
  "removeMatches 0 r s = s"
| "removeMatches (Suc n) r s =
     (case s of
        [] \<Rightarrow> []
      | c # cs \<Rightarrow>
          (case rxMatch r s [] of
             [] \<Rightarrow> c # removeMatches n r cs
           | (rest, _) # _ \<Rightarrow>
               (if length rest < length s then removeMatches n r rest
                else c # removeMatches n r cs)))"

definition scriptPattern :: rx where
  "scriptPattern =
     seqs [StrCI ''<script'', Star (Cls (NoneOf ''>'')), Str ''>'',
           Grp 1 (LazyStar (Cls (NoneOf []))), StrCI ''</script>'']"

definition scriptTagPattern :: rx where
  "scriptTagPattern =
     Alt (seqs [StrCI ''<script'', Star (Cls (NoneOf ''>'')), Str ''>'']) (StrCI ''</script>'')"

definition extractVueScriptContent :: "string \<Rightarrow> string" where
  "extractVueScriptContent content =
     (let matches = matchTexts (Suc (length content)) scriptPattern content
      in if matches = [] then []
         else joinWith (CHR 0x0A)
                (map (\<lambda>m. removeMatches (Suc (length m)) scriptTagPattern m) matches))"

text \<open>
  \<open>extractImportsWithRegex\<close> and \<open>extractImports\<close>. \<open>None\<close> is a scan that never
  ends; no text makes the patterns of this program do that.
\<close>

definition extractImportsWithRegex ::
    "Env \<Rightarrow> Analyzer \<Rightarrow> string \<Rightarrow> fpath \<Rightarrow> fpath \<Rightarrow> ImportInfo list option" where
  "extractImportsWithRegex env an content fileDir rootDir =
     map_option (map (\<lambda>(src, ty). createImportInfo env an src fileDir rootDir ty))
       (extractSources content)"

definition extractImports ::
    "Env \<Rightarrow> Analyzer \<Rightarrow> string \<Rightarrow> fpath \<Rightarrow> fpath \<Rightarrow> ImportInfo list option" where
  "extractImports env an content filePath rootDir =
     (let fileDir = pathDirname filePath;
          scriptContent = (if endsWith filePath ''.vue'' then extractVueScriptContent content
                           else content)
      in extractImportsWithRegex env an scriptContent fileDir rootDir)"

section \<open>GraphBuilder\<close>

text \<open>
  \<open>FileNode\<close> without its field \<open>isNodeModule\<close>, which is the constant \<open>false\<close> and is
  never read; its field \<open>imports\<close> is \<open>importList\<close> here. The JavaScript \<open>Map\<close> of the
  import map is an association list in insertion order.
\<close>

record FileNode =
  path :: fpath
  name :: string
  importList :: "ImportInfo list"
  importedBy :: "fpath list"

type_synonym fileMap = "(fpath \<times> FileNode) list"

record ImportMap =
  files :: fileMap
  entryFile :: "fpath option"

datatype error = ReaddirFailed

fun mapSet :: "fpath \<Rightarrow> FileNode \<Rightarrow> fileMap \<Rightarrow> fileMap" where
  "mapSet k v [] = [(k, v)]"
| "mapSet k v ((k', v') # m) = (if k' = k then (k, v) # m else (k', v') # mapSet k v m)"

definition mapHas :: "fileMap \<Rightarrow> fpath \<Rightarrow> bool" where
  "mapHas m k = (map_of m k \<noteq> None)"

text \<open>\<open>files.get(target)\<close> followed, when it finds a node, by \<open>importedBy.push(importer)\<close>.\<close>

fun pushImportedBy :: "fpath \<Rightarrow> fpath \<Rightarrow> fileMap \<Rightarrow> fileMap" where
  "pushImportedBy target importer [] = []"
| "pushImportedBy target importer ((k, n) # m) =
     (if k = target then (k, n\<lparr>importedBy := importedBy n @ [importer]\<rparr>) # m
      else (k, n) # pushImportedBy target importer m)"

text \<open>
  \<open>analyzeFileContent\<close>. The first \<open>None\<close> is the \<open>null\<close> that the \<open>catch\<close> returns
  when \<open>readFileSync\<close> throws; nothing else in the \<open>try\<close> can throw. The second
  \<open>None\<close> stands for an extraction that never ends, which no text brings about.
\<close>

definition analyzeFileContent :: "Env \<Rightarrow> Analyzer \<Rightarrow> fpath \<Rightarrow> fpath \<Rightarrow> FileNode option" where
  "analyzeFileContent env an filePath rootDir =
     (case fsReadFile env filePath of
        None \<Rightarrow> None
      | Some content \<Rightarrow>
          (case extractImports env an content filePath rootDir of
             None \<Rightarrow> None
           | Some imps \<Rightarrow>
               Some \<lparr>path = filePath, name = pathBasename filePath, importList = imps,
                     importedBy = []\<rparr>))"

text \<open>The test \<open>!importInfo.isNodeModule && importInfo.resolvedPath\<close>, with the path it finds.\<close>

definition internalTarget :: "ImportInfo \<Rightarrow> fpath option" where
  "internalTarget i =
     (case resolvedPath i of
        None \<Rightarrow> None
      | Some r \<Rightarrow> if \<not> isNodeModule i \<and> r \<noteq> [] then Some r else None)"

text \<open>The first pass of \<open>analyzeProject\<close>.\<close>

fun firstPass :: "Env \<Rightarrow> Analyzer \<Rightarrow> fpath \<Rightarrow> fpath list \<Rightarrow> fileMap \<Rightarrow> fileMap" where
  "firstPass env an rootDir [] m = m"
| "firstPass env an rootDir (filePath # rest) m =
     (case analyzeFileContent env an filePath rootDir of
        None \<Rightarrow> firstPass env an rootDir rest m
      | Some fileNode \<Rightarrow> firstPass env an rootDir rest (mapSet filePath fileNode m))"

text \<open>The second pass: the inner loop over the imports of one file, and the outer loop.\<close>

fun pushImports :: "fpath \<Rightarrow> ImportInfo list \<Rightarrow> fileMap \<Rightarrow> fileMap" where
  "pushImports filePath [] m = m"
| "pushImports filePath (i # is) m =
     (case internalTarget i of
        None \<Rightarrow> pushImports filePath is m
      | Some target \<Rightarrow> pushImports filePath is (pushImportedBy target filePath m))"

fun secondPass :: "fileMap \<Rightarrow> fileMap \<Rightarrow> fileMap" where
  "secondPass [] m = m"
| "secondPass ((filePath, fileNode) # rest) m =
     secondPass rest (pushImports filePath (importList fileNode) m)"

definition analyzeProject :: "Env \<Rightarrow> fpath \<Rightarrow> error + ImportMap" where
  "analyzeProject env rootDir =
     (let an = initAnalyzer env rootDir
      in case scannedFiles env of
           None \<Rightarrow> Inl ReaddirFailed
         | Some allFiles \<Rightarrow>
             (let firstMap = firstPass env an rootDir allFiles []
              in Inr \<lparr>files = secondPass firstMap firstMap, entryFile = None\<rparr>))"

text \<open>\<open>analyzeFile\<close>, step 2: the files of the project that import the current file.\<close>

definition importsCurrentFile :: "fpath \<Rightarrow> FileNode \<Rightarrow> bool" where
  "importsCurrentFile filePath node =
     list_ex (\<lambda>imp. \<not> isNodeModule imp \<and> resolvedPath imp = Some filePath) (importList node)"

fun importerPass ::
    "Env \<Rightarrow> Analyzer \<Rightarrow> fpath \<Rightarrow> fpath \<Rightarrow> fpath list \<Rightarrow> fileMap \<Rightarrow> fileMap" where
  "importerPass env an filePath rootDir [] m = m"
| "importerPass env an filePath rootDir (projectFilePath # rest) m =
     (if projectFilePath = filePath \<or> mapHas m projectFilePath
      then importerPass env an filePath rootDir rest m
      else
        (case analyzeFileContent env an projectFilePath rootDir of
           None \<Rightarrow> importerPass env an filePath rootDir rest m
         | Some projectFileNode \<Rightarrow>
             (if importsCurrentFile filePath projectFileNode
              then importerPass env an filePath rootDir rest
                     (pushImportedBy filePath projectFilePath
                        (mapSet projectFilePath projectFileNode m))
              else importerPass env an filePath rootDir rest m)))"

text \<open>Step 3: the files that the current file imports.\<close>

fun dependencyPass ::
    "Env \<Rightarrow> Analyzer \<Rightarrow> fpath \<Rightarrow> fpath \<Rightarrow> ImportInfo list \<Rightarrow> fileMap \<Rightarrow> fileMap" where
  "dependencyPass env an filePath rootDir [] m = m"
| "dependencyPass env an filePath rootDir (importInfo # rest) m =
     (case internalTarget importInfo of
        None \<Rightarrow> dependencyPass env an filePath rootDir rest m
      | Some target \<Rightarrow>
          (if mapHas m target then dependencyPass env an filePath rootDir rest m
           else
             (case analyzeFileContent env an target rootDir of
                None \<Rightarrow> dependencyPass env an filePath rootDir rest m
              | Some dependencyNode \<Rightarrow>
                  dependencyPass env an filePath rootDir rest
                    (pushImportedBy target filePath (mapSet target dependencyNode m)))))"

definition analyzeFile :: "Env \<Rightarrow> fpath \<Rightarrow> fpath \<Rightarrow> error + ImportMap" where
  "analyzeFile env filePath rootDir =
     (let an = initAnalyzer env rootDir
      in case analyzeFileContent env an filePath rootDir of
           None \<Rightarrow> Inr \<lparr>files = [], entryFile = Some filePath\<rparr>
         | Some currentFileNode \<Rightarrow>
             (case scannedFiles env of
                None \<Rightarrow> Inl ReaddirFailed
              | Some allProjectFiles \<Rightarrow>
                  (let withImporters =
                         importerPass env an filePath rootDir allProjectFiles
                           [(filePath, currentFileNode)]
                   in Inr \<lparr>files = dependencyPass env an filePath rootDir
                                      (importList currentFileNode) withImporters,
                           entryFile = Some filePath\<rparr>)))"

text \<open>A file system given by a table of directories and of files with their texts.\<close>

definition tableEnv :: "fpath list \<Rightarrow> (fpath \<times> string) list \<Rightarrow> fpath list option \<Rightarrow> Env" where
  "tableEnv dirs texts scanned =
     \<lparr>fsExists = (\<lambda>p. p \<in> set dirs \<or> p \<in> set (map fst texts)),
      fsIsFile = (\<lambda>p. p \<in> set (map fst texts)),
      fsIsDirectory = (\<lambda>p. p \<in> set dirs),
      fsReadFile = map_of texts,
      processCwd = ''/'',
      scannedFiles = scanned,
      detectedSrcDir = ''.''\<rparr>"

text \<open>
  What steps 2 and 3 of \<open>analyzeFile\<close> collect, read off the records that the program
  builds: the scanned files whose record has an import with the entry file as its
  \<open>resolvedPath\<close>, and the paths in the \<open>resolvedPath\<close> of the imports of the entry file
  that can be analysed.
\<close>

definition recordedImporters ::
    "Env \<Rightarrow> Analyzer \<Rightarrow> fpath \<Rightarrow> fpath \<Rightarrow> fpath list \<Rightarrow> fpath list" where
  "recordedImporters env an entry rootDir tree =
     filter (\<lambda>p. case analyzeFileContent env an p rootDir of
                    None \<Rightarrow> False
                  | Some n \<Rightarrow> importsCurrentFile entry n) tree"

definition recordedDependencies ::
    "Env \<Rightarrow> Analyzer \<Rightarrow> fpath \<Rightarrow> ImportInfo list \<Rightarrow> fpath list" where
  "recordedDependencies env an rootDir imps =
     filter (\<lambda>t. analyzeFileContent env an t rootDir \<noteq> None)
       (List.map_filter internalTarget imps)"

section \<open>Resolution as the specification words it\<close>

text \<open>
  The candidates of a base path, in the order of the specification: the path itself,
  the path with each extension of the probe list, then the index files inside the path.
  A candidate survives when it exists as a file and the path filter does not exclude it.
  A base path resolves to its first surviving candidate, and to nothing when no
  candidate survives.
\<close>

definition indexCandidates :: "fpath \<Rightarrow> fpath list" where
  "indexCandidates base = map (\<lambda>ext. pathJoin [base, ''index'' @ ext]) (tl extensions)"

definition candidates :: "fpath \<Rightarrow> fpath list" where
  "candidates base = map (\<lambda>ext. base @ ext) extensions @ indexCandidates base"

definition survives :: "Env \<Rightarrow> Analyzer \<Rightarrow> fpath \<Rightarrow> bool" where
  "survives env an c \<longleftrightarrow> fsExists env c \<and> fsIsFile env c \<and> \<not> shouldIgnorePath env an c"

definition specResolve :: "Env \<Rightarrow> Analyzer \<Rightarrow> fpath \<Rightarrow> fpath option" where
  "specResolve env an base = find (survives env an) (candidates base)"

text \<open>
  The base path of an import source: nothing for an external source, the path under the
  source directory for an alias, the path relative to the importing file otherwise. The
  specification leaves the construction to the program; these are the paths that
  \<open>resolveProjectAlias\<close> and \<open>createImportInfo\<close> hand to \<open>resolveFilePath\<close>.
\<close>

definition aliasBase :: "Env \<Rightarrow> Analyzer \<Rightarrow> string \<Rightarrow> fpath \<Rightarrow> fpath option" where
  "aliasBase env an src rootDir =
     (if startsWith src ''@/'' then
        let withoutAlias = drop 2 src;
            srcPath = pathJoin [rootDir, nuxtSrcDir an, withoutAlias]
        in Some (if fsExists env srcPath \<or> fsExists env (pathDirname srcPath)
                 then srcPath else pathJoin [rootDir, withoutAlias])
      else if startsWith src ''~/'' \<or> startsWith src ''~~/'' then
        Some (pathJoin [rootDir, nuxtSrcDir an,
                        if startsWith src ''~~/'' then drop 3 src else drop 2 src])
      else if startsWith src ''#app/'' \<or> startsWith src ''#imports'' \<or>
              startsWith src ''#components/'' then
        Some (pathJoin [rootDir, nuxtSrcDir an, afterFirstSlash src])
      else None)"

definition basePath :: "Env \<Rightarrow> Analyzer \<Rightarrow> string \<Rightarrow> fpath \<Rightarrow> fpath \<Rightarrow> fpath option" where
  "basePath env an src fileDir rootDir =
     (if isProjectAlias src then aliasBase env an src rootDir
      else if startsWith src ''.'' \<or> pathIsAbsolute src
      then Some (pathResolve (processCwd env) [fileDir, src])
      else None)"

text \<open>
  The base paths of the imports of a file, in the order of extraction; none for a file
  that cannot be read.
\<close>

definition basePaths :: "Env \<Rightarrow> Analyzer \<Rightarrow> fpath \<Rightarrow> fpath \<Rightarrow> fpath list" where
  "basePaths env an filePath rootDir =
     (case fsReadFile env filePath of
        None \<Rightarrow> []
      | Some content \<Rightarrow>
          (case extractSources (if endsWith filePath ''.vue''
                                then extractVueScriptContent content else content) of
             None \<Rightarrow> []
           | Some srcs \<Rightarrow>
               List.map_filter
                 (\<lambda>(src, ty). basePath env an src (pathDirname filePath) rootDir) srcs))"

text \<open>
  The three groups of the focused mode, in the words of the specification: the entry
  file, the files of the tree whose own imports resolve to the entry file, and the files
  that the imports of the entry file resolve to. A file that cannot be read is skipped.
\<close>

definition specTargets :: "Env \<Rightarrow> Analyzer \<Rightarrow> fpath \<Rightarrow> fpath \<Rightarrow> fpath list" where
  "specTargets env an filePath rootDir =
     List.map_filter (specResolve env an) (basePaths env an filePath rootDir)"

definition specImporters ::
    "Env \<Rightarrow> Analyzer \<Rightarrow> fpath \<Rightarrow> fpath \<Rightarrow> fpath list \<Rightarrow> fpath list" where
  "specImporters env an entry rootDir tree =
     filter (\<lambda>p. entry \<in> set (specTargets env an p rootDir)) tree"

definition specDependencies :: "Env \<Rightarrow> Analyzer \<Rightarrow> fpath \<Rightarrow> fpath \<Rightarrow> fpath list" where
  "specDependencies env an entry rootDir =
     filter (\<lambda>t. fsReadFile env t \<noteq> None) (specTargets env an entry rootDir)"


definition safeToReturn :: "Env \<Rightarrow> Analyzer \<Rightarrow> fpath \<Rightarrow> bool" where
  "safeToReturn env an base \<longleftrightarrow> fsReadFile env base = None \<or> survives env an base"




section \<open>Visualization data\<close>

text \<open>
  A coordinate of a node in the browser: \<open>undefined\<close> until a layout or a restore sets
  it, then a number, which may be \<open>NaN\<close>. Numbers are real numbers here, not doubles.
\<close>

datatype coord = Undefined | NaN | Num real

text \<open>
  \<open>VisualizationNode\<close>, with the field \<open>size\<close> that the script of the panel adds.
  The fields \<open>id\<close>, \<open>path\<close>, \<open>isNodeModule\<close>, \<open>x\<close>, \<open>y\<close> and \<open>size\<close> of the source
  are \<open>nodeId\<close>, \<open>nodePath\<close>, \<open>isModuleNode\<close>, \<open>posX\<close>, \<open>posY\<close> and \<open>boxSize\<close>; a
  missing \<open>isCurrentFile\<close> is \<open>False\<close>, as the source only tests it for truth.
\<close>

record VisualizationNode =
  nodeId :: string
  label :: string
  nodePath :: string
  isModuleNode :: bool
  isCurrentFile :: bool
  posX :: coord
  posY :: coord
  boxSize :: "(real \<times> real) option"

record VisualizationEdge =
  edgeFrom :: string
  edgeTo :: string
  edgeType :: ImportType

definition fileToNode :: "fpath option \<Rightarrow> fpath \<times> FileNode \<Rightarrow> VisualizationNode" where
  "fileToNode currentFile entry =
     \<lparr>nodeId = fst entry, label = pathBasename (name (snd entry)), nodePath = fst entry,
      isModuleNode = False, isCurrentFile = (currentFile = Some (fst entry)),
      posX = Undefined, posY = Undefined, boxSize = None\<rparr>"

definition moduleNode :: "string \<Rightarrow> string \<Rightarrow> VisualizationNode" where
  "moduleNode moduleId src =
     \<lparr>nodeId = moduleId, label = src, nodePath = src, isModuleNode = True,
      isCurrentFile = False, posX = Undefined, posY = Undefined, boxSize = None\<rparr>"

text \<open>
  Step 2 of \<open>convertToVisualizationData\<close>. The state is the three collections that the
  source fills: \<open>nodes\<close>, \<open>edges\<close> and the set \<open>nodeIds\<close>.
\<close>

type_synonym vizState = "VisualizationNode list \<times> VisualizationEdge list \<times> string list"

fun addImportEdges ::
    "bool \<Rightarrow> fpath option \<Rightarrow> fileMap \<Rightarrow> fpath \<Rightarrow> ImportInfo list \<Rightarrow> vizState \<Rightarrow> vizState" where
  "addImportEdges isProjectMode currentFile fm nid [] st = st"
| "addImportEdges isProjectMode currentFile fm nid (importInfo # rest) (nodes, edges, nodeIds) =
     (if isNodeModule importInfo \<and> (isProjectMode \<or> currentFile = Some nid) then
        (let moduleId = ''node_module:'' @ source importInfo;
             edge = \<lparr>edgeFrom = moduleId, edgeTo = nid, edgeType = importType importInfo\<rparr>
         in if moduleId \<in> set nodeIds
            then addImportEdges isProjectMode currentFile fm nid rest
                   (nodes, edges @ [edge], nodeIds)
            else addImportEdges isProjectMode currentFile fm nid rest
                   (nodes @ [moduleNode moduleId (source importInfo)], edges @ [edge],
                    nodeIds @ [moduleId]))
      else
        (case resolvedPath importInfo of
           None \<Rightarrow> addImportEdges isProjectMode currentFile fm nid rest (nodes, edges, nodeIds)
         | Some rp \<Rightarrow>
             (if rp \<noteq> [] \<and> mapHas fm rp
              then addImportEdges isProjectMode currentFile fm nid rest
                     (nodes,
                      edges @ [\<lparr>edgeFrom = rp, edgeTo = nid, edgeType = importType importInfo\<rparr>],
                      nodeIds)
              else addImportEdges isProjectMode currentFile fm nid rest (nodes, edges, nodeIds))))"

fun addFileEdges :: "bool \<Rightarrow> fpath option \<Rightarrow> fileMap \<Rightarrow> fileMap \<Rightarrow> vizState \<Rightarrow> vizState" where
  "addFileEdges isProjectMode currentFile fm [] st = st"
| "addFileEdges isProjectMode currentFile fm ((filePath, fileNode) # rest) st =
     addFileEdges isProjectMode currentFile fm rest
       (addImportEdges isProjectMode currentFile fm filePath (importList fileNode) st)"

definition convertToVisualizationData ::
    "ImportMap \<Rightarrow> fpath option \<Rightarrow> bool \<Rightarrow> VisualizationNode list \<times> VisualizationEdge list" where
  "convertToVisualizationData importMap currentFile isProjectMode =
     (case addFileEdges isProjectMode currentFile (files importMap) (files importMap)
             (map (fileToNode currentFile) (files importMap), [], map fst (files importMap)) of
        (nodes, edges, nodeIds) \<Rightarrow> (nodes, edges))"

text \<open>
  What the conversion keeps true of its three collections: \<open>nodeIds\<close> holds the ids of
  \<open>nodes\<close>, among them every key of the map of files, and both ends of every edge.
\<close>

definition vizOk :: "fileMap \<Rightarrow> vizState \<Rightarrow> bool" where
  "vizOk fm st =
     (case st of
        (nodes, edges, nodeIds) \<Rightarrow>
          set nodeIds = nodeId ` set nodes \<and> fst ` set fm \<subseteq> set nodeIds \<and>
          (\<forall>e \<in> set edges. edgeFrom e \<in> set nodeIds \<and> edgeTo e \<in> set nodeIds))"

section \<open>LayoutEngine\<close>

text \<open>
  What the layout reads from the browser: the canvas, the device pixel ratio (positive in
  a browser) and the text measurement of the canvas context.
\<close>

record Canvas =
  canvasWidth :: real
  canvasHeight :: real
  devicePixelRatio :: real
  measureText :: "string \<Rightarrow> real"

definition calculateNodeSize :: "Canvas \<Rightarrow> string \<Rightarrow> real \<times> real" where
  "calculateNodeSize cv txt = (max 60 (measureText cv txt + 20 * 2), 30)"

text \<open>\<open>node.size || calculateNodeSize(node.label)\<close>.\<close>

definition nodeSize :: "Canvas \<Rightarrow> VisualizationNode \<Rightarrow> real \<times> real" where
  "nodeSize cv n = (case boxSize n of Some s \<Rightarrow> s | None \<Rightarrow> calculateNodeSize cv (label n))"

text \<open>\<open>Math.abs(a - b)\<close>; \<open>None\<close> is \<open>NaN\<close>, which no comparison accepts.\<close>

fun coordDist :: "coord \<Rightarrow> coord \<Rightarrow> real option" where
  "coordDist (Num a) (Num b) = Some \<bar>a - b\<bar>"
| "coordDist _ _ = None"

definition nodesOverlap :: "Canvas \<Rightarrow> VisualizationNode \<Rightarrow> VisualizationNode \<Rightarrow> bool" where
  "nodesOverlap cv node1 node2 =
     (case (coordDist (posX node1) (posX node2), coordDist (posY node1) (posY node2)) of
        (Some dx, Some dy) \<Rightarrow>
          dx < fst (nodeSize cv node1) / 2 + fst (nodeSize cv node2) / 2 + 20 \<and>
          dy < snd (nodeSize cv node1) / 2 + snd (nodeSize cv node2) / 2 + 20
      | _ \<Rightarrow> False)"

definition centerX :: "Canvas \<Rightarrow> real" where
  "centerX cv = canvasWidth cv / (2 * devicePixelRatio cv)"

definition centerY :: "Canvas \<Rightarrow> real" where
  "centerY cv = canvasHeight cv / (2 * devicePixelRatio cv)"

definition hasPosition :: "VisualizationNode \<Rightarrow> bool" where
  "hasPosition n = (posX n \<noteq> Undefined \<and> posY n \<noteq> Undefined)"

definition moveTo :: "VisualizationNode \<Rightarrow> real \<Rightarrow> real \<Rightarrow> VisualizationNode" where
  "moveTo n px py = n\<lparr>posX := Num px, posY := Num py\<rparr>"

text \<open>
  The \<open>while\<close> loop that looks for a free place for one node. \<open>placed\<close> are the nodes
  \<open>otherNodes[0..index-1]\<close>. \<open>Math.ceil(8 + layer * 2)\<close> is \<open>8 + layer * 2\<close>, as
  \<open>layer\<close> is a whole number. The result is the position at which \<open>validPosition\<close>
  became true, or \<open>None\<close> when the hundred attempts are used up.
\<close>

function spiralSearch ::
    "Canvas \<Rightarrow> VisualizationNode \<Rightarrow> VisualizationNode list \<Rightarrow> VisualizationNode \<Rightarrow> nat \<Rightarrow>
     nat \<Rightarrow> nat \<Rightarrow> (real \<times> real) option" where
  "spiralSearch cv currentNode placed node index layer attempts =
     (if attempts < 100 then
        (let angleStep = (2 * pi) / real (max 8 (8 + layer * 2));
             angle = real (index mod (8 + layer * 2)) * angleStep + real layer * 0.5;
             distance = 150 + real layer * 30;
             px = centerX cv + cos angle * distance;
             py = centerY cv + sin angle * distance;
             w = fst (nodeSize cv node);
             h = snd (nodeSize cv node)
         in if px - w / 2 < 100 \<or> px + w / 2 > centerX cv * 2 - 100 \<or>
               py - h / 2 < 100 \<or> py + h / 2 > centerY cv * 2 - 100
            then spiralSearch cv currentNode placed node index (layer + 1) (attempts + 1)
            else if \<not> nodesOverlap cv (moveTo node px py) currentNode \<and>
                    \<not> list_ex (\<lambda>otherNode. hasPosition otherNode \<and>
                                  nodesOverlap cv (moveTo node px py) otherNode) placed
            then Some (px, py)
            else spiralSearch cv currentNode placed node index
                   (if attempts mod 8 = 7 then layer + 1 else layer) (attempts + 1))
      else None)"
  by pat_completeness auto
termination
  by (relation "measure (\<lambda>(cv, currentNode, placed, node, index, layer, attempts). 100 - attempts)")
     auto

declare spiralSearch.simps [simp del]

text \<open>The body of \<open>otherNodes.forEach\<close>: the search, then the fallback placement.\<close>

definition placeNode ::
    "Canvas \<Rightarrow> VisualizationNode \<Rightarrow> VisualizationNode list \<Rightarrow> nat \<Rightarrow> nat \<Rightarrow>
     VisualizationNode \<Rightarrow> VisualizationNode" where
  "placeNode cv currentNode placed nOthers index node =
     (case spiralSearch cv currentNode placed node index 0 0 of
        Some (px, py) \<Rightarrow> moveTo node px py
      | None \<Rightarrow>
          (let fallbackAngle = (real index / real nOthers) * 2 * pi;
               fallbackDistance = 150 + real (index div 8) * 30
           in moveTo node (centerX cv + cos fallbackAngle * fallbackDistance)
                          (centerY cv + sin fallbackAngle * fallbackDistance)))"

fun placeOthers ::
    "Canvas \<Rightarrow> VisualizationNode \<Rightarrow> nat \<Rightarrow> VisualizationNode list \<Rightarrow> VisualizationNode list \<Rightarrow>
     VisualizationNode list" where
  "placeOthers cv currentNode nOthers placed [] = placed"
| "placeOthers cv currentNode nOthers placed (node # rest) =
     placeOthers cv currentNode nOthers
       (placed @ [placeNode cv currentNode placed nOthers (length placed) node]) rest"

text \<open>
  The nodes are objects that the layout moves in place. \<open>mergeBack\<close> writes the moved
  objects back at their places in \<open>nodes\<close>: the first node with \<open>isCurrentFile\<close> is
  \<open>currentNode\<close>, the nodes without it are \<open>otherNodes\<close> in their order, and any further
  node with \<open>isCurrentFile\<close> is not touched.
\<close>

fun mergeBack ::
    "bool \<Rightarrow> VisualizationNode \<Rightarrow> VisualizationNode list \<Rightarrow> VisualizationNode list \<Rightarrow>
     VisualizationNode list" where
  "mergeBack seen currentNode others [] = []"
| "mergeBack seen currentNode others (n # ns) =
     (if isCurrentFile n then
        (if seen then n # mergeBack True currentNode others ns
         else currentNode # mergeBack True currentNode others ns)
      else
        (case others of
           [] \<Rightarrow> n # mergeBack seen currentNode [] ns
         | m # ms \<Rightarrow> m # mergeBack seen currentNode ms ns))"

definition otherNodesOf :: "VisualizationNode list \<Rightarrow> VisualizationNode list" where
  "otherNodesOf nodes = filter (\<lambda>n. \<not> isCurrentFile n) nodes"

definition layoutSpiral ::
    "Canvas \<Rightarrow> VisualizationNode \<Rightarrow> VisualizationNode list \<Rightarrow> VisualizationNode list" where
  "layoutSpiral cv found nodes =
     (let currentNode = moveTo found (centerX cv) (centerY cv);
          otherNodes = otherNodesOf nodes
      in mergeBack False currentNode
           (placeOthers cv currentNode (length otherNodes) [] otherNodes) nodes)"

text \<open>
  The grid of the branch without a current file. With \<open>cols = 0\<close> the remainder is
  \<open>NaN\<close> and the quotient is \<open>NaN\<close> or infinite; an infinite \<open>y\<close> is larger than
  \<open>maxY\<close> and is replaced.
\<close>

definition gridNode :: "Canvas \<Rightarrow> nat \<Rightarrow> VisualizationNode \<Rightarrow> VisualizationNode" where
  "gridNode cv index node =
     (let maxX = centerX cv * 2 - 100;
          maxY = centerY cv * 2 - 100;
          cols = \<lfloor>(maxX - 100 * 2) / 150\<rfloor>
      in if cols = 0
         then node\<lparr>posX := NaN, posY := (if index = 0 then NaN else Num (maxY - 30))\<rparr>
         else
           (let col = int index mod \<bar>cols\<bar>;
                row = \<lfloor>real index / of_int cols\<rfloor>;
                gx = 100 + of_int col * 150 + 75;
                gy = 100 + of_int row * 80 + 40
            in moveTo node (if gx > maxX then maxX - 50 else gx)
                           (if gy > maxY then maxY - 30 else gy)))"

fun gridFrom :: "Canvas \<Rightarrow> nat \<Rightarrow> VisualizationNode list \<Rightarrow> VisualizationNode list" where
  "gridFrom cv index [] = []"
| "gridFrom cv index (node # rest) = gridNode cv index node # gridFrom cv (Suc index) rest"

definition layoutGrid :: "Canvas \<Rightarrow> VisualizationNode list \<Rightarrow> VisualizationNode list" where
  "layoutGrid cv nodes = gridFrom cv 0 nodes"

definition freshLayout :: "Canvas \<Rightarrow> VisualizationNode list \<Rightarrow> VisualizationNode list" where
  "freshLayout cv nodes =
     (case find isCurrentFile nodes of
        Some found \<Rightarrow> layoutSpiral cv found nodes
      | None \<Rightarrow> layoutGrid cv nodes)"

text \<open>
  The persisted positions are the object that \<open>JSON.parse\<close> returns, with a pair of
  numbers for each key; \<open>None\<close> is a store without an entry for the current file. The
  quotient of the two counts is compared with \<open>0.7\<close> in whole numbers: the sets
  differ too much when ten times the shared ids are fewer than seven times the larger
  set.
\<close>

type_synonym positionMap = "(string \<times> real \<times> real) list"

definition restoreNode :: "positionMap \<Rightarrow> VisualizationNode \<Rightarrow> VisualizationNode" where
  "restoreNode positions node =
     (case map_of positions (nodeId node) of
        Some (px, py) \<Rightarrow> moveTo node px py
      | None \<Rightarrow> node)"

definition sharedIds :: "positionMap \<Rightarrow> VisualizationNode list \<Rightarrow> string list" where
  "sharedIds positions nodes =
     filter (\<lambda>i. i \<in> set (map fst positions)) (remdups (map nodeId nodes))"

definition belowThreshold :: "positionMap \<Rightarrow> VisualizationNode list \<Rightarrow> bool" where
  "belowThreshold positions nodes =
     (10 * length (sharedIds positions nodes)
        < 7 * max (length (remdups (map nodeId nodes))) (length (remdups (map fst positions))))"

definition loadNodePositions ::
    "positionMap option \<Rightarrow> VisualizationNode list \<Rightarrow>
     bool \<times> VisualizationNode list \<times> positionMap option" where
  "loadNodePositions storage nodes =
     (case storage of
        None \<Rightarrow> (False, nodes, None)
      | Some positions \<Rightarrow>
          (if belowThreshold positions nodes then (False, nodes, None)
           else
             (list_ex (\<lambda>node. map_of positions (nodeId node) \<noteq> None) nodes,
              map (restoreNode positions) nodes, Some positions)))"

definition layoutNodes ::
    "Canvas \<Rightarrow> bool \<Rightarrow> positionMap option \<Rightarrow> VisualizationNode list \<Rightarrow>
     VisualizationNode list \<times> positionMap option" where
  "layoutNodes cv forceNew storage nodes =
     (if nodes = [] then (nodes, storage)
      else if forceNew then (freshLayout cv nodes, storage)
      else
        (case loadNodePositions storage nodes of
           (restored, nodes', storage') \<Rightarrow>
             (if restored then (nodes', storage') else (freshLayout cv nodes', storage'))))"

text \<open>
  The part of \<open>initCanvas\<close> that concerns the layout: every node is measured, and
  \<open>layoutNodes\<close> runs unless every node has a position.
\<close>

definition initCanvas ::
    "Canvas \<Rightarrow> positionMap option \<Rightarrow> VisualizationNode list \<Rightarrow>
     VisualizationNode list \<times> positionMap option" where
  "initCanvas cv storage nodes =
     (let sized = map (\<lambda>n. n\<lparr>boxSize := Some (calculateNodeSize cv (label n))\<rparr>) nodes
      in if sized \<noteq> [] \<and> list_all hasPosition sized then (sized, storage)
         else layoutNodes cv False storage sized)"

definition clearPosition :: "VisualizationNode \<Rightarrow> VisualizationNode" where
  "clearPosition n = n\<lparr>posX := Undefined, posY := Undefined\<rparr>"

text \<open>
  Placed without the fallback: the search of the node with index \<open>j\<close> among
  \<open>otherNodes\<close> has found a position.
\<close>

definition spiralOthers :: "Canvas \<Rightarrow> VisualizationNode \<Rightarrow> VisualizationNode list \<Rightarrow>
    VisualizationNode list" where
  "spiralOthers cv found nodes =
     placeOthers cv (moveTo found (centerX cv) (centerY cv)) (length (otherNodesOf nodes)) []
       (otherNodesOf nodes)"

definition placedBySearch :: "Canvas \<Rightarrow> VisualizationNode \<Rightarrow> VisualizationNode list \<Rightarrow> nat \<Rightarrow> bool" where
  "placedBySearch cv found nodes j =
     (spiralSearch cv (moveTo found (centerX cv) (centerY cv))
        (take j (spiralOthers cv found nodes)) (otherNodesOf nodes ! j) j 0 0 \<noteq> None)"

text \<open>
  The padded bounding box of the specification: the box of the node, widened by ten
  pixels on every side, as an open rectangle around the position of the node.
\<close>

definition inPaddedBox :: "Canvas \<Rightarrow> VisualizationNode \<Rightarrow> real \<times> real \<Rightarrow> bool" where
  "inPaddedBox cv n p =
     (case (posX n, posY n) of
        (Num px, Num py) \<Rightarrow>
          \<bar>fst p - px\<bar> < fst (nodeSize cv n) / 2 + 10 \<and>
          \<bar>snd p - py\<bar> < snd (nodeSize cv n) / 2 + 10
      | _ \<Rightarrow> False)"

section \<open>Example inputs\<close>

definition logRules :: string where
  "logRules = ''*.log'' @ [CHR 0x0A] @ ''!important.log''"

definition logRulesReversed :: string where
  "logRulesReversed = ''!important.log'' @ [CHR 0x0A] @ ''*.log''"

definition boundRequire :: string where
  "boundRequire = ''const x = require('./a')''"

definition lazyImport :: string where
  "lazyImport = ''() => import('./a')''"



definition internalImport :: "string \<Rightarrow> fpath \<Rightarrow> ImportInfo" where
  "internalImport src target =
     \<lparr>source = src, importType = Import, isNodeModule = False, resolvedPath = Some target\<rparr>"

definition fileNode :: "fpath \<Rightarrow> string \<Rightarrow> ImportInfo list \<Rightarrow> fpath list \<Rightarrow> FileNode" where
  "fileNode p nm imps by = \<lparr>path = p, name = nm, importList = imps, importedBy = by\<rparr>"

definition twoHopGraph :: ImportMap where
  "twoHopGraph =
     \<lparr>files =
        [(''/p/e.ts'', fileNode ''/p/e.ts'' ''e.ts''
            [internalImport ''./a'' ''/p/a.ts'', internalImport ''./b'' ''/p/b.ts'']
            [''/p/c.ts'']),
         (''/p/c.ts'', fileNode ''/p/c.ts'' ''c.ts'' [internalImport ''./e'' ''/p/e.ts''] []),
         (''/p/a.ts'', fileNode ''/p/a.ts'' ''a.ts'' [internalImport ''./d'' ''/p/d.ts'']
            [''/p/e.ts'']),
         (''/p/b.ts'', fileNode ''/p/b.ts'' ''b.ts'' [] [''/p/e.ts''])],
      entryFile = Some ''/p/e.ts''\<rparr>"




text \<open>A project of two files in which \<open>b.js\<close> binds one require of \<open>a.js\<close>.\<close>

definition requireEnv :: Env where
  "requireEnv =
     tableEnv [''/p'']
       [(''/p/a.js'', ''module.exports = 1''),
        (''/p/b.js'', ''const x = require('./a')'')]
       (Some [''/p/a.js'', ''/p/b.js''])"

text \<open>
  A project whose \<open>.gitignore\<close> excludes \<open>secret.ts\<close>. The entry file imports that
  file by its full name and a file that does not exist.
\<close>

definition secretEnv :: Env where
  "secretEnv =
     tableEnv [''/p'']
       [(''/p/e.ts'', ''import k from './secret.ts'; import m from './missing' ''),
        (''/p/secret.ts'', ''export {}''),
        (''/p/.gitignore'', ''secret.ts'')]
       (Some [''/p/e.ts''])"

definition secretGraph :: ImportMap where
  "secretGraph =
     \<lparr>files =
        [(''/p/e.ts'', fileNode ''/p/e.ts'' ''e.ts''
            [internalImport ''./secret.ts'' ''/p/secret.ts'',
             internalImport ''./missing'' ''/p/missing''] []),
         (''/p/secret.ts'', fileNode ''/p/secret.ts'' ''secret.ts'' [] [''/p/e.ts''])],
      entryFile = Some ''/p/e.ts''\<rparr>"

text \<open>A project with the single file \<open>e.ts\<close>, and the same project without it.\<close>

definition soloEnv :: Env where
  "soloEnv = tableEnv [''/p''] [(''/p/e.ts'', ''export {}'')] (Some [''/p/e.ts''])"

definition emptyEnv :: Env where
  "emptyEnv = tableEnv [''/p''] [] (Some [])"

text \<open>
  A canvas of 1000 by 800 pixels on which every label measures 10 pixels, and an entry
  node with two other nodes that have no positions yet.
\<close>

definition wideCanvas :: Canvas where
  "wideCanvas =
     \<lparr>canvasWidth = 1000, canvasHeight = 800, devicePixelRatio = 1, measureText = (\<lambda>_. 10)\<rparr>"

definition plainNode :: "string \<Rightarrow> string \<Rightarrow> bool \<Rightarrow> VisualizationNode" where
  "plainNode i lbl cur =
     \<lparr>nodeId = i, label = lbl, nodePath = i, isModuleNode = False, isCurrentFile = cur,
      posX = Undefined, posY = Undefined, boxSize = None\<rparr>"

definition entryNode :: VisualizationNode where
  "entryNode = plainNode ''/p/e.ts'' ''e.ts'' True"

definition threeNodes :: "VisualizationNode list" where
  "threeNodes = [entryNode, plainNode ''/p/a.ts'' ''a.ts'' False, plainNode ''/p/b.ts'' ''b.ts'' False]"

text \<open>
  Four nodes of which the last is new, and a store that holds positions for the first
  three.
\<close>

definition fourNodes :: "VisualizationNode list" where
  "fourNodes =
     [entryNode, plainNode ''/p/a.ts'' ''a.ts'' False, plainNode ''/p/b.ts'' ''b.ts'' False,
      plainNode ''/p/d.ts'' ''d.ts'' False]"

definition threeSaved :: positionMap where
  "threeSaved = [(''/p/e.ts'', 500, 400), (''/p/a.ts'', 650, 400), (''/p/b.ts'', 500, 550)]"

text \<open>Eight persisted ids, and node lists that share their first \<open>k\<close> ids with them.\<close>

definition eightIds :: "string list" where
  "eightIds = [''a'', ''b'', ''c'', ''d'', ''e'', ''f'', ''g'', ''h'']"

definition eightSaved :: positionMap where
  "eightSaved = map (\<lambda>i. (i, 0, 0)) eightIds"

definition nodesNamed :: "nat \<Rightarrow> VisualizationNode list" where
  "nodesNamed k = map (\<lambda>i. plainNode i i (i = ''a'')) (take k eightIds)"

text \<open>The nodes and edges of the two-hop graph.\<close>

definition edge :: "string \<Rightarrow> string \<Rightarrow> VisualizationEdge" where
  "edge a b = \<lparr>edgeFrom = a, edgeTo = b, edgeType = Import\<rparr>"

definition twoHopNodes :: "VisualizationNode list" where
  "twoHopNodes =
     [plainNode ''/p/e.ts'' ''e.ts'' True, plainNode ''/p/c.ts'' ''c.ts'' False,
      plainNode ''/p/a.ts'' ''a.ts'' False, plainNode ''/p/b.ts'' ''b.ts'' False]"

definition twoHopEdges :: "VisualizationEdge list" where
  "twoHopEdges =
     [edge ''/p/a.ts'' ''/p/e.ts'', edge ''/p/b.ts'' ''/p/e.ts'', edge ''/p/e.ts'' ''/p/c.ts'']"

section \<open>Ignore rules: the last match decides\<close>

lemma shouldIgnoreLoop_filter:
  "shouldIgnoreLoop rules rp d acc =
     (case filter (ruleMatches rp d) rules of
        [] \<Rightarrow> acc
      | m # ms \<Rightarrow> \<not> isNegation (last (m # ms)))"
  by (induction rules arbitrary: acc) (auto simp: ruleMatches_def split: list.splits)

lemma logRules_parsed:
  "loadGitignore (Some logRules) =
     [\<lparr>pattern = ''*.log'', isNegation = False, isDirectory = False\<rparr>,
      \<lparr>pattern = ''important.log'', isNegation = True, isDirectory = False\<rparr>]"
  by code_simp

lemma logRules_a: "shouldIgnore (loadGitignore (Some logRules)) ''a.log'' False"
  by code_simp

lemma logRules_important: "\<not> shouldIgnore (loadGitignore (Some logRules)) ''important.log'' False"
  by code_simp

lemma logRulesReversed_important:
  "shouldIgnore (loadGitignore (Some logRulesReversed)) ''important.log'' False"
  by code_simp

text \<open>
  Claim C4. For every path and every ordered list of ignore rules, \<open>shouldIgnore\<close>
  goes through all rules in file order and the last rule that matches the path decides:
  the path is ignored exactly when that rule is not a negation, and it is not ignored
  when no rule matches. With the rules \<open>*.log\<close> then \<open>!important.log\<close>, \<open>a.log\<close> is
  ignored and \<open>important.log\<close> is not; with the two rules in the other order,
  \<open>important.log\<close> is ignored.
\<close>

theorem shouldIgnore_last_match_decides:
  "shouldIgnore rules rp d = lastMatchDecides rules rp d
   \<and> shouldIgnore (loadGitignore (Some logRules)) ''a.log'' False
   \<and> \<not> shouldIgnore (loadGitignore (Some logRules)) ''important.log'' False
   \<and> shouldIgnore (loadGitignore (Some logRulesReversed)) ''important.log'' False"
proof -
  have "shouldIgnore rules rp d = lastMatchDecides rules rp d"
    unfolding shouldIgnore_def lastMatchDecides_def by (rule shouldIgnoreLoop_filter)
  then show ?thesis
    using logRules_a logRules_important logRulesReversed_important by simp
qed

theorem shouldIgnore_last_match_decides_witness:
  "shouldIgnore (loadGitignore (Some logRules)) ''logs/a.log'' False
   = lastMatchDecides (loadGitignore (Some logRules)) ''logs/a.log'' False
   \<and> lastMatchDecides (loadGitignore (Some logRules)) ''logs/a.log'' False"
proof -
  have "lastMatchDecides (loadGitignore (Some logRules)) ''logs/a.log'' False"
    by code_simp
  then show ?thesis
    using shouldIgnore_last_match_decides
      [of "loadGitignore (Some logRules)" "''logs/a.log''" False]
    by simp
qed

section \<open>Extraction: one statement, two references\<close>

lemma boundRequire_generic:
  "patternHits (fst (dynamicImportPatterns ! 2)) (snd (dynamicImportPatterns ! 2)) boundRequire
     = Some [(''./a'', Require)]"
  by code_simp

lemma boundRequire_bound:
  "patternHits requirePattern Require boundRequire = Some [(''./a'', Require)]"
  by code_simp

lemma boundRequire_sources:
  "extractSources boundRequire = Some [(''./a'', Require), (''./a'', Require)]"
  by code_simp

lemma lazyImport_first:
  "patternHits (fst (dynamicImportPatterns ! 0)) (snd (dynamicImportPatterns ! 0)) lazyImport
     = Some [(''./a'', DynamicImport)]"
  by code_simp

lemma lazyImport_second:
  "patternHits (fst (dynamicImportPatterns ! 1)) (snd (dynamicImportPatterns ! 1)) lazyImport
     = Some [(''./a'', DynamicImport)]"
  by code_simp

lemma lazyImport_sources:
  "extractSources lazyImport = Some [(''./a'', DynamicImport), (''./a'', DynamicImport)]"
  by code_simp

text \<open>
  Claim C10. Some single import statements yield more than one reference with the same
  source. The bound require \<open>const x = require('./a')\<close> is matched by the generic
  require-call pattern and by the bound-require pattern, and the extractor returns two
  references of type require for \<open>./a\<close>. The lazy dynamic import \<open>() => import('./a')\<close>
  is matched by both dynamic-import patterns, and the extractor returns two references
  of type dynamic-import for \<open>./a\<close>.
\<close>

theorem extractor_duplicates_references:
  "map_option (map (\<lambda>i. (source i, importType i)))
     (extractImportsWithRegex env an boundRequire fileDir rootDir)
     = Some [(''./a'', Require), (''./a'', Require)]
   \<and> patternHits (fst (dynamicImportPatterns ! 2)) (snd (dynamicImportPatterns ! 2)) boundRequire
     = Some [(''./a'', Require)]
   \<and> patternHits requirePattern Require boundRequire = Some [(''./a'', Require)]
   \<and> map_option (map (\<lambda>i. (source i, importType i)))
     (extractImportsWithRegex env an lazyImport fileDir rootDir)
     = Some [(''./a'', DynamicImport), (''./a'', DynamicImport)]
   \<and> patternHits (fst (dynamicImportPatterns ! 0)) (snd (dynamicImportPatterns ! 0)) lazyImport
     = Some [(''./a'', DynamicImport)]
   \<and> patternHits (fst (dynamicImportPatterns ! 1)) (snd (dynamicImportPatterns ! 1)) lazyImport
     = Some [(''./a'', DynamicImport)]"
  using boundRequire_generic boundRequire_bound lazyImport_first lazyImport_second
  by (simp add: extractImportsWithRegex_def boundRequire_sources lazyImport_sources
        createImportInfo_def Let_def)

section \<open>The extractor always returns\<close>

lemma greedyIter_le:
  assumes "\<And>s c s' c'. (s', c') \<in> set (f s c) \<Longrightarrow> length s' \<le> length s"
  shows "(s', c') \<in> set (greedyIter f n s c) \<Longrightarrow> length s' \<le> length s"
proof (induction n arbitrary: s c)
  case 0
  then show ?case by simp
next
  case (Suc n)
  from Suc.prems consider "(s', c') = (s, c)"
    | s1 c1 where "(s1, c1) \<in> set (f s c)" "length s1 < length s"
        "(s', c') \<in> set (greedyIter f n s1 c1)"
    by (auto split: if_splits)
  then show ?case
  proof cases
    case 1
    then show ?thesis by simp
  next
    case 2
    then show ?thesis using Suc.IH [of s1 c1] by simp
  qed
qed

lemma lazyIter_le:
  assumes "\<And>s c s' c'. (s', c') \<in> set (f s c) \<Longrightarrow> length s' \<le> length s"
  shows "(s', c') \<in> set (lazyIter f n s c) \<Longrightarrow> length s' \<le> length s"
proof (induction n arbitrary: s c)
  case 0
  then show ?case by simp
next
  case (Suc n)
  from Suc.prems consider "(s', c') = (s, c)"
    | s1 c1 where "(s1, c1) \<in> set (f s c)" "length s1 < length s"
        "(s', c') \<in> set (lazyIter f n s1 c1)"
    by (auto split: if_splits)
  then show ?case
  proof cases
    case 1
    then show ?thesis by simp
  next
    case 2
    then show ?thesis using Suc.IH [of s1 c1] by simp
  qed
qed


lemma rxMatch_le: "(s', c') \<in> set (rxMatch r s c) \<Longrightarrow> length s' \<le> length s"
proof (induction r arbitrary: s c s' c')
  case (Seq a b)
  from Seq.prems obtain s1 c1 where 1: "(s1, c1) \<in> set (rxMatch a s c)"
    and 2: "(s', c') \<in> set (rxMatch b s1 c1)" by auto
  show ?case using Seq.IH(1) [OF 1] Seq.IH(2) [OF 2] by simp
next
  case (Alt a b)
  then show ?case by auto
next
  case (Grp n a)
  then show ?case by auto
next
  case (Star a)
  have "(s', c') \<in> set (greedyIter (rxMatch a) (length s) s c)" using Star.prems by simp
  then show ?case by (rule greedyIter_le [rotated]) (rule Star.IH)
next
  case (Plus a)
  from Plus.prems obtain s1 c1 where 1: "(s1, c1) \<in> set (rxMatch a s c)"
    and 2: "(s', c') \<in> set (greedyIter (rxMatch a) (length s1) s1 c1)" by auto
  have "length s' \<le> length s1" using 2 by (rule greedyIter_le [rotated]) (rule Plus.IH)
  then show ?case using Plus.IH [OF 1] by simp
next
  case (LazyStar a)
  have "(s', c') \<in> set (lazyIter (rxMatch a) (length s) s c)" using LazyStar.prems by simp
  then show ?case by (rule lazyIter_le [rotated]) (rule LazyStar.IH)
qed (auto split: list.splits if_splits)

lemma rxMatch_less:
  "consumes r \<Longrightarrow> (s', c') \<in> set (rxMatch r s c) \<Longrightarrow> length s' < length s"
proof (induction r arbitrary: s c s' c')
  case (Seq a b)
  from Seq.prems(2) obtain s1 c1 where 1: "(s1, c1) \<in> set (rxMatch a s c)"
    and 2: "(s', c') \<in> set (rxMatch b s1 c1)" by auto
  show ?case
  proof (cases "consumes a")
    case True
    then show ?thesis using Seq.IH(1) [OF _ 1] rxMatch_le [OF 2] by simp
  next
    case False
    then have "consumes b" using Seq.prems(1) by simp
    then show ?thesis using Seq.IH(2) [OF _ 2] rxMatch_le [OF 1] by simp
  qed
next
  case (Plus a)
  from Plus.prems obtain s1 c1 where 1: "(s1, c1) \<in> set (rxMatch a s c)"
    and 2: "(s', c') \<in> set (greedyIter (rxMatch a) (length s1) s1 c1)" by auto
  have "length s' \<le> length s1" using 2 by (rule greedyIter_le [rotated]) (rule rxMatch_le)
  then show ?case using Plus.IH [OF _ 1] Plus.prems(1) by simp
next
  case (Str lit)
  then have "lit \<noteq> []" "take (length lit) s = lit" "s' = drop (length lit) s"
    by (auto simp: startsWith_def split: if_splits)
  moreover from this have "s \<noteq> []" by auto
  ultimately show ?case by simp
next
  case (StrCI lit)
  then have "lit \<noteq> []" "map lowerChar (take (length lit) s) = lit" "s' = drop (length lit) s"
    by (auto split: if_splits)
  moreover from this have "s \<noteq> []" by auto
  ultimately show ?case by simp
qed (auto split: list.splits if_splits)


lemma execFrom_less:
  "consumes r \<Longrightarrow> execFrom r s = Some (rest, caps) \<Longrightarrow> length rest < length s"
proof (induction s)
  case Nil
  then show ?case using rxMatch_less [of r rest caps "[]" "[]"]
    by (auto split: list.splits)
next
  case (Cons c cs)
  show ?case
  proof (cases "rxMatch r (c # cs) []")
    case Nil
    then show ?thesis using Cons by auto
  next
    case (Cons m ms)
    then have "(rest, caps) \<in> set (rxMatch r (c # cs) [])" using Cons.prems(2) by auto
    then show ?thesis using rxMatch_less [OF Cons.prems(1)] by blast
  qed
qed

lemma execLoop_total: "consumes r \<Longrightarrow> length s < n \<Longrightarrow> execLoop n r s \<noteq> None"
proof (induction n arbitrary: s)
  case 0
  then show ?case by simp
next
  case (Suc n)
  show ?case
  proof (cases "execFrom r s")
    case None
    then show ?thesis by simp
  next
    case (Some m)
    obtain rest caps where m: "m = (rest, caps)" by (cases m)
    have "length rest < length s" using execFrom_less [OF Suc.prems(1)] Some m by simp
    then show ?thesis using Suc.IH [OF Suc.prems(1), of rest] Suc.prems(2) Some m by auto
  qed
qed

lemma collectHits_total:
  "list_all (\<lambda>p. consumes (fst p)) ps \<Longrightarrow> collectHits ps content \<noteq> None"
proof (induction ps)
  case Nil
  then show ?case by simp
next
  case (Cons p ps)
  obtain r ty where p: "p = (r, ty)" by (cases p)
  have "execAll r content \<noteq> None"
    unfolding execAll_def using Cons.prems by (intro execLoop_total) (simp_all add: p)
  then show ?case using Cons by (auto simp: p patternHits_def)
qed

lemma allPatterns_consume: "list_all (\<lambda>p. consumes (fst p)) allPatterns"
  by (simp add: allPatterns_def importPatterns_def dynamicImportPatterns_def requirePattern_def
        seqs_def quote_def sourceArg_def)

lemma extractSources_total: "extractSources content \<noteq> None"
  unfolding extractSources_def by (rule collectHits_total) (rule allPatterns_consume)

lemma analyzeFileContent_reads:
  "analyzeFileContent env an p r = None \<longleftrightarrow> fsReadFile env p = None"
  by (simp add: analyzeFileContent_def extractImports_def extractImportsWithRegex_def Let_def
        extractSources_total split: option.splits)

section \<open>The import graph\<close>

subsection \<open>The map of files\<close>

lemma mapHas_keys: "mapHas m k \<longleftrightarrow> k \<in> fst ` set m"
  by (simp add: mapHas_def map_of_eq_None_iff)

lemma keylist_mapSet:
  "map fst (mapSet k v m) = (if k \<in> set (map fst m) then map fst m else map fst m @ [k])"
  by (induction m) (auto simp: rev_image_eqI)

lemma keys_mapSet: "fst ` set (mapSet k v m) = insert k (fst ` set m)"
  using arg_cong [OF keylist_mapSet [of k v m], of set] by (auto split: if_splits)

lemma mapSet_fresh: "k \<notin> set (map fst m) \<Longrightarrow> mapSet k v m = m @ [(k, v)]"
  by (induction m) auto

lemma distinct_mapSet: "distinct (map fst m) \<Longrightarrow> distinct (map fst (mapSet k v m))"
  by (simp add: keylist_mapSet)

lemma map_of_mapSet: "map_of (mapSet k v m) = (map_of m)(k \<mapsto> v)"
  by (induction m) (auto simp: fun_eq_iff)

lemma keylist_pushImportedBy: "map fst (pushImportedBy t b m) = map fst m"
  by (induction m) auto

lemma keys_pushImportedBy: "fst ` set (pushImportedBy t b m) = fst ` set m"
  using arg_cong [OF keylist_pushImportedBy [of t b m], of set] by simp




subsection \<open>Whole-project mode\<close>

lemma firstPass_inv:
  "distinct (map fst m) \<Longrightarrow> (\<forall>(k, n) \<in> set m. analyzeFileContent env an k r = Some n) \<Longrightarrow>
   distinct (map fst (firstPass env an r fs m)) \<and>
   (\<forall>(k, n) \<in> set (firstPass env an r fs m). analyzeFileContent env an k r = Some n)"
proof (induction fs arbitrary: m)
  case Nil
  then show ?case by simp
next
  case (Cons p fs)
  show ?case
  proof (cases "analyzeFileContent env an p r")
    case None
    then show ?thesis using Cons by simp
  next
    case (Some n)
    have d: "distinct (map fst (mapSet p n m))" using Cons.prems(1) by (rule distinct_mapSet)
    have a: "\<forall>(k, n') \<in> set (mapSet p n m). analyzeFileContent env an k r = Some n'"
    proof (cases "p \<in> set (map fst m)")
      case True
      then obtain n0 where "(p, n0) \<in> set m" by auto
      with Cons.prems(2) Some have "n0 = n" by auto
      with \<open>(p, n0) \<in> set m\<close> Cons.prems(1) have "map_of m p = Some n" by simp
      then have "map_of (mapSet p n m) = map_of m" by (auto simp: map_of_mapSet fun_eq_iff)
      then have "set (mapSet p n m) = set m"
        using d Cons.prems(1) by (metis map_of_inject_set)
      then show ?thesis using Cons.prems(2) by simp
    next
      case False
      then show ?thesis using Cons.prems(2) Some by (auto simp: mapSet_fresh)
    qed
    show ?thesis using Some Cons.IH [OF d a] by simp
  qed
qed





subsection \<open>Focused mode\<close>

lemma importerPass_keys:
  "E \<in> fst ` set m \<Longrightarrow>
   fst ` set (importerPass env an E r fs m) = fst ` set m \<union> set (recordedImporters env an E r fs)"
proof (induction fs arbitrary: m)
  case Nil
  then show ?case by (simp add: recordedImporters_def)
next
  case (Cons p fs)
  have E': "\<And>v. E \<in> fst ` set (pushImportedBy E p (mapSet p v m))"
    using Cons.prems by (simp add: keys_mapSet keys_pushImportedBy)
  show ?case
    using Cons.prems Cons.IH [OF Cons.prems] Cons.IH [OF E']
    by (cases "analyzeFileContent env an p r")
       (auto simp: recordedImporters_def mapHas_keys keys_mapSet keys_pushImportedBy)
qed


lemma dependencyPass_keys:
  "fst ` set (dependencyPass env an E r is m) =
     fst ` set m \<union> set (recordedDependencies env an r is)"
proof (induction "is" arbitrary: m)
  case Nil
  then show ?case by (simp add: recordedDependencies_def map_filter_simps)
next
  case (Cons i "is")
  show ?case
  proof (cases "internalTarget i")
    case None
    then show ?thesis using Cons.IH by (simp add: recordedDependencies_def map_filter_simps)
  next
    case (Some t)
    then show ?thesis
      using Cons.IH
      by (cases "analyzeFileContent env an t r")
         (auto simp: recordedDependencies_def map_filter_simps mapHas_keys keys_mapSet
            keys_pushImportedBy)
  qed
qed

lemma focused_keys:
  assumes "analyzeFile env E r = Inr g"
    and "analyzeFileContent env (initAnalyzer env r) E r = Some cur"
    and "scannedFiles env = Some tree"
  shows "set (map fst (files g)) =
     {E} \<union> set (recordedImporters env (initAnalyzer env r) E r tree)
         \<union> set (recordedDependencies env (initAnalyzer env r) r (importList cur))"
proof -
  define an where "an = initAnalyzer env r"
  have "files g = dependencyPass env an E r (importList cur)
      (importerPass env an E r tree [(E, cur)])"
    using assms by (auto simp: analyzeFile_def Let_def an_def)
  then have "fst ` set (files g) =
      ({E} \<union> set (recordedImporters env an E r tree)) \<union> set (recordedDependencies env an r (importList cur))"
    by (simp add: dependencyPass_keys importerPass_keys)
  then show ?thesis by (simp add: an_def)
qed























subsection \<open>The program's resolution and the specification's\<close>

















subsection \<open>The examples, evaluated\<close>







lemma secret_focused: "analyzeFile secretEnv ''/p/e.ts'' ''/p'' = Inr secretGraph"
  by code_simp

lemma secret_ignored:
  "shouldIgnorePath secretEnv (initAnalyzer secretEnv ''/p'') ''/p/secret.ts''"
  by code_simp

lemma secret_probe:
  "probeFile secretEnv (initAnalyzer secretEnv ''/p'') ''/p/secret.ts'' extensions = None
   \<and> probeIndex secretEnv (initAnalyzer secretEnv ''/p'') ''/p/secret.ts'' (tl extensions) = None
   \<and> probeFile secretEnv (initAnalyzer secretEnv ''/p'') ''/p/missing'' extensions = None
   \<and> probeIndex secretEnv (initAnalyzer secretEnv ''/p'') ''/p/missing'' (tl extensions) = None"
  by code_simp

lemma secret_create:
  "createImportInfo secretEnv (initAnalyzer secretEnv ''/p'') ''./secret.ts'' ''/p'' ''/p'' Import
     = internalImport ''./secret.ts'' ''/p/secret.ts''
   \<and> createImportInfo secretEnv (initAnalyzer secretEnv ''/p'') ''./missing'' ''/p'' ''/p'' Import
     = internalImport ''./missing'' ''/p/missing''"
  by code_simp

lemma solo_focused:
  "analyzeFile soloEnv ''/p/e.ts'' ''/p'' =
     Inr \<lparr>files = [(''/p/e.ts'', fileNode ''/p/e.ts'' ''e.ts'' [] [])],
          entryFile = Some ''/p/e.ts''\<rparr>"
  by code_simp

lemma empty_focused:
  "analyzeFile emptyEnv ''/p/e.ts'' ''/p'' = Inr \<lparr>files = [], entryFile = Some ''/p/e.ts''\<rparr>"
  by code_simp






text \<open>
  Where the program leaves the specification: the import of the ignored \<open>secret.ts\<close> has
  no surviving candidate, the program records the base path all the same, the file can
  be read, and the focused build makes it a node.
\<close>

lemma secret_spec_groups:
  "specImporters secretEnv (initAnalyzer secretEnv ''/p'') ''/p/e.ts'' ''/p'' [''/p/e.ts''] = []
   \<and> specDependencies secretEnv (initAnalyzer secretEnv ''/p'') ''/p/e.ts'' ''/p'' = []
   \<and> basePaths secretEnv (initAnalyzer secretEnv ''/p'') ''/p/e.ts'' ''/p''
       = [''/p/secret.ts'', ''/p/missing'']
   \<and> \<not> safeToReturn secretEnv (initAnalyzer secretEnv ''/p'') ''/p/secret.ts''"
  by code_simp

lemma secret_keys: "map fst (files secretGraph) = [''/p/e.ts'', ''/p/secret.ts'']"
  by (simp add: secretGraph_def)

text \<open>
  In whole-project mode the second pass appends without looking: the one bound require
  of \<open>b.js\<close> is extracted twice, and \<open>b.js\<close> is listed twice in the \<open>importedBy\<close> of
  \<open>a.js\<close>.
\<close>

lemma project_mode_appends_twice:
  "analyzeProject requireEnv ''/p'' =
     Inr \<lparr>files =
        [(''/p/a.js'', fileNode ''/p/a.js'' ''a.js'' [] [''/p/b.js'', ''/p/b.js'']),
         (''/p/b.js'', fileNode ''/p/b.js'' ''b.js''
           [\<lparr>source = ''./a'', importType = Require, isNodeModule = False,
              resolvedPath = Some ''/p/a.js''\<rparr>,
            \<lparr>source = ''./a'', importType = Require, isNodeModule = False,
              resolvedPath = Some ''/p/a.js''\<rparr>] [])],
       entryFile = None\<rparr>"
  by code_simp

subsection \<open>Claim C1: \<open>importedBy\<close> and the resolved imports\<close>




subsection \<open>Claim C2: an import that nothing resolves\<close>

lemma resolveFilePath_fallback:
  "probeFile env an p extensions = None \<Longrightarrow> probeIndex env an p (tl extensions) = None \<Longrightarrow>
   resolveFilePath env an p = p"
  by (simp add: resolveFilePath_def)

lemma internal_import_has_resolvedPath:
  "\<not> isNodeModule (createImportInfo env an src d r ty) \<Longrightarrow>
   resolvedPath (createImportInfo env an src d r ty) \<noteq> None"
  by (auto simp: createImportInfo_def Let_def resolveProjectAlias_def isProjectAlias_def)

text \<open>
  Claim C2 at a failing input. The entry file \<open>/p/e.ts\<close> imports \<open>./secret.ts\<close>,
  a file that exists and that \<open>.gitignore\<close> excludes, and \<open>./missing\<close>, which does
  not exist. No candidate survives for either import, and both references still carry a
  resolved path, the base path itself; the focused build then reads the ignored file
  and makes it a node.
\<close>

theorem unresolved_import_keeps_base_path:
  "shouldIgnorePath secretEnv (initAnalyzer secretEnv ''/p'') ''/p/secret.ts''
   \<and> probeFile secretEnv (initAnalyzer secretEnv ''/p'') ''/p/secret.ts'' extensions = None
   \<and> probeIndex secretEnv (initAnalyzer secretEnv ''/p'') ''/p/secret.ts'' (tl extensions) = None
   \<and> probeFile secretEnv (initAnalyzer secretEnv ''/p'') ''/p/missing'' extensions = None
   \<and> probeIndex secretEnv (initAnalyzer secretEnv ''/p'') ''/p/missing'' (tl extensions) = None
   \<and> resolvedPath (createImportInfo secretEnv (initAnalyzer secretEnv ''/p'')
        ''./secret.ts'' ''/p'' ''/p'' Import) = Some ''/p/secret.ts''
   \<and> resolvedPath (createImportInfo secretEnv (initAnalyzer secretEnv ''/p'')
        ''./missing'' ''/p'' ''/p'' Import) = Some ''/p/missing''
   \<and> analyzeFile secretEnv ''/p/e.ts'' ''/p'' = Inr secretGraph
   \<and> map fst (files secretGraph) = [''/p/e.ts'', ''/p/secret.ts'']"
  using secret_ignored secret_probe secret_create secret_focused
  by (simp add: internalImport_def secretGraph_def)

subsection \<open>Claim C3: the nodes of the focused graph\<close>




subsection \<open>Claim C8: an entry file that cannot be read\<close>

text \<open>
  Claim C8 as it stands asks for an explicit failure indicator. The import map has two
  fields. For an entry file that does not exist it is the map of a successful build with
  the files emptied: \<open>entryFile\<close> is the requested path in both, and nothing but the
  empty \<open>files\<close> tells the failure.
\<close>

theorem missing_entry_has_no_indicator:
  "analyzeFile emptyEnv ''/p/e.ts'' ''/p'' = Inr \<lparr>files = [], entryFile = Some ''/p/e.ts''\<rparr>
   \<and> analyzeFile soloEnv ''/p/e.ts'' ''/p'' =
       Inr \<lparr>files = [(''/p/e.ts'', fileNode ''/p/e.ts'' ''e.ts'' [] [])],
            entryFile = Some ''/p/e.ts''\<rparr>"
  using empty_focused solo_focused by simp

text \<open>
  Claim C8, amended. If the entry file does not exist or cannot be read, \<open>analyzeFile\<close>
  returns, without throwing and whether or not the scan of the tree would throw, an
  import map whose files are empty and whose \<open>entryFile\<close> is the requested path. There
  is no separate failure indicator: every map that \<open>analyzeFile\<close> returns carries the
  requested path, and its files are empty exactly when the entry file could not be
  read.
\<close>

theorem missing_entry_returns_empty_map:
  "(fsReadFile env E = None \<longrightarrow>
      analyzeFile env E r = Inr \<lparr>files = [], entryFile = Some E\<rparr>)
   \<and> (analyzeFile env E r = Inr g \<longrightarrow>
        entryFile g = Some E \<and> (files g = [] \<longleftrightarrow> fsReadFile env E = None))"
proof -
  have a: "analyzeFile env E r = Inr \<lparr>files = [], entryFile = Some E\<rparr>"
    if "fsReadFile env E = None"
    using that by (simp add: analyzeFile_def analyzeFileContent_def)
  have b: "entryFile g = Some E \<and> (files g = [] \<longleftrightarrow> fsReadFile env E = None)"
    if g: "analyzeFile env E r = Inr g"
  proof (cases "analyzeFileContent env (initAnalyzer env r) E r")
    case None
    moreover have "fsReadFile env E = None"
      using None by (simp add: analyzeFileContent_reads)
    ultimately show ?thesis using g by (auto simp: analyzeFile_def)
  next
    case (Some cur)
    then obtain tree where "scannedFiles env = Some tree"
      using g by (auto simp: analyzeFile_def Let_def split: option.splits)
    then have "E \<in> set (map fst (files g))"
      using focused_keys [OF g Some] by simp
    moreover have "entryFile g = Some E"
      using g Some \<open>scannedFiles env = Some tree\<close> by (auto simp: analyzeFile_def Let_def)
    moreover have "fsReadFile env E \<noteq> None"
      using Some analyzeFileContent_reads [of env "initAnalyzer env r" E r] by simp
    ultimately show ?thesis by auto
  qed
  show ?thesis using a b by blast
qed

theorem missing_entry_returns_empty_map_witness:
  "fsReadFile (tableEnv [''/p''] [] None) ''/p/e.ts'' = None
   \<and> analyzeFile (tableEnv [''/p''] [] None) ''/p/e.ts'' ''/p''
       = Inr \<lparr>files = [], entryFile = Some ''/p/e.ts''\<rparr>
   \<and> entryFile \<lparr>files = [], entryFile = Some ''/p/e.ts''\<rparr> = Some ''/p/e.ts''
   \<and> files \<lparr>files = [], entryFile = Some ''/p/e.ts''\<rparr> = []"
proof -
  have r: "fsReadFile (tableEnv [''/p''] [] None) ''/p/e.ts'' = None"
    by (simp add: tableEnv_def)
  then have g: "analyzeFile (tableEnv [''/p''] [] None) ''/p/e.ts'' ''/p''
       = Inr \<lparr>files = [], entryFile = Some ''/p/e.ts''\<rparr>"
    using missing_entry_returns_empty_map
      [of "tableEnv [''/p''] [] None" "''/p/e.ts''" "''/p''"] by simp
  show ?thesis
    using r g missing_entry_returns_empty_map
      [of "tableEnv [''/p''] [] None" "''/p/e.ts''" "''/p''"
          "\<lparr>files = [], entryFile = Some ''/p/e.ts''\<rparr>"]
    by simp
qed

section \<open>Visualization data: no dangling edges\<close>

lemma addImportEdges_ok:
  "vizOk fm st \<Longrightarrow> nid \<in> fst ` set fm \<Longrightarrow> vizOk fm (addImportEdges mode cur fm nid is st)"
proof (induction mode cur fm nid "is" st rule: addImportEdges.induct)
  case (1 mode cur fm nid st)
  then show ?case by simp
next
  case (2 mode cur fm nid i rest nodes edges ids)
  show ?case
  proof (cases "isNodeModule i \<and> (mode \<or> cur = Some nid)")
    case True
    show ?thesis
    proof (cases "''node_module:'' @ source i \<in> set ids")
      case inn: True
      have "vizOk fm (nodes, edges @ [\<lparr>edgeFrom = ''node_module:'' @ source i, edgeTo = nid,
          edgeType = importType i\<rparr>], ids)"
        using "2.prems" inn by (auto simp: vizOk_def)
      then show ?thesis using True inn "2.IH"(1) "2.prems"(2) by (simp add: Let_def)
    next
      case out: False
      have "vizOk fm (nodes @ [moduleNode (''node_module:'' @ source i) (source i)],
          edges @ [\<lparr>edgeFrom = ''node_module:'' @ source i, edgeTo = nid,
          edgeType = importType i\<rparr>], ids @ [''node_module:'' @ source i])"
        using "2.prems" by (auto simp: vizOk_def moduleNode_def)
      then show ?thesis using True out "2.IH"(2) "2.prems"(2) by (simp add: Let_def)
    qed
  next
    case False
    show ?thesis
    proof (cases "resolvedPath i")
      case None
      then show ?thesis using False "2.IH"(3) "2.prems" by auto
    next
      case (Some rp)
      show ?thesis
      proof (cases "rp \<noteq> [] \<and> mapHas fm rp")
        case yes: True
        have "vizOk fm (nodes, edges @ [\<lparr>edgeFrom = rp, edgeTo = nid, edgeType = importType i\<rparr>], ids)"
          using "2.prems" yes by (auto simp: vizOk_def mapHas_keys)
        then show ?thesis using False Some yes "2.IH"(4) "2.prems"(2) by auto
      next
        case no: False
        then show ?thesis using False Some "2.IH"(5) "2.prems" by auto
      qed
    qed
  qed
qed

lemma addFileEdges_ok:
  "vizOk fm st \<Longrightarrow> fst ` set todo \<subseteq> fst ` set fm \<Longrightarrow> vizOk fm (addFileEdges mode cur fm todo st)"
proof (induction todo arbitrary: st)
  case Nil
  then show ?case by simp
next
  case (Cons e todo)
  obtain p n where e: "e = (p, n)" by (cases e)
  have "vizOk fm (addImportEdges mode cur fm p (importList n) st)"
    using Cons.prems by (intro addImportEdges_ok) (auto simp: e)
  then show ?case using Cons.IH Cons.prems(2) by (simp add: e)
qed

lemma convert_no_dangling:
  assumes "convertToVisualizationData im cur mode = (ns, es)" and "e \<in> set es"
  shows "edgeFrom e \<in> set (map nodeId ns) \<and> edgeTo e \<in> set (map nodeId ns)"
proof -
  have start: "vizOk (files im) (map (fileToNode cur) (files im), [], map fst (files im))"
    by (auto simp: vizOk_def fileToNode_def image_image)
  obtain ids where st: "addFileEdges mode cur (files im) (files im)
      (map (fileToNode cur) (files im), [], map fst (files im)) = (ns, es, ids)"
    using assms(1) by (auto simp: convertToVisualizationData_def split: prod.splits)
  have "vizOk (files im) (ns, es, ids)"
    using addFileEdges_ok [OF start, of "files im" mode cur] by (simp add: st)
  then show ?thesis using assms(2) by (auto simp: vizOk_def)
qed

lemma twoHop_converted:
  "convertToVisualizationData twoHopGraph (Some ''/p/e.ts'') False = (twoHopNodes, twoHopEdges)"
  by code_simp

text \<open>
  Claim C7. For every import map and every current file, in project mode and in
  current-file mode, both the \<open>from\<close> id and the \<open>to\<close> id of every edge that
  \<open>convertToVisualizationData\<close> emits are ids of nodes in the node list it emits.
\<close>

theorem no_dangling_edges:
  assumes "convertToVisualizationData im cur mode = (ns, es)" and "e \<in> set es"
  shows "edgeFrom e \<in> set (map nodeId ns) \<and> edgeTo e \<in> set (map nodeId ns)"
  using assms by (rule convert_no_dangling)

theorem no_dangling_edges_witness:
  "convertToVisualizationData twoHopGraph (Some ''/p/e.ts'') False = (twoHopNodes, twoHopEdges)
   \<and> edge ''/p/a.ts'' ''/p/e.ts'' \<in> set twoHopEdges
   \<and> edgeFrom (edge ''/p/a.ts'' ''/p/e.ts'') \<in> set (map nodeId twoHopNodes)
   \<and> edgeTo (edge ''/p/a.ts'' ''/p/e.ts'') \<in> set (map nodeId twoHopNodes)"
proof -
  have m: "edge ''/p/a.ts'' ''/p/e.ts'' \<in> set twoHopEdges" by (simp add: twoHopEdges_def)
  show ?thesis
    using no_dangling_edges [OF twoHop_converted m] twoHop_converted m by simp
qed

subsection \<open>At most one current file\<close>

lemma addImportEdges_current:
  "filter isCurrentFile (fst (addImportEdges mode cur fm nid is st)) = filter isCurrentFile (fst st)"
  by (induction mode cur fm nid "is" st rule: addImportEdges.induct)
     (auto simp: Let_def moduleNode_def split: option.splits)

lemma addFileEdges_current:
  "filter isCurrentFile (fst (addFileEdges mode cur fm todo st)) = filter isCurrentFile (fst st)"
proof (induction todo arbitrary: st)
  case Nil
  then show ?case by simp
next
  case (Cons e todo)
  obtain p n where e: "e = (p, n)" by (cases e)
  show ?case by (simp add: e Cons.IH addImportEdges_current)
qed

lemma at_most_one_key:
  "distinct (map fst fm) \<Longrightarrow> length (filter (\<lambda>e. cur = Some (fst e)) fm) \<le> 1"
proof (induction fm)
  case Nil
  then show ?case by simp
next
  case (Cons e fm)
  then show ?case
    by (cases "cur = Some (fst e)") (auto simp: filter_empty_conv image_iff)
qed

lemma convert_one_current:
  assumes "distinct (map fst (files im))"
  shows "length (filter isCurrentFile (fst (convertToVisualizationData im cur mode))) \<le> 1"
proof -
  obtain ns es ids where st: "addFileEdges mode cur (files im) (files im)
      (map (fileToNode cur) (files im), [], map fst (files im)) = (ns, es, ids)"
    by (cases "addFileEdges mode cur (files im) (files im)
      (map (fileToNode cur) (files im), [], map fst (files im))") auto
  have "filter isCurrentFile (fst (convertToVisualizationData im cur mode)) =
      filter isCurrentFile (map (fileToNode cur) (files im))"
    using addFileEdges_current [of mode cur "files im" "files im"
        "(map (fileToNode cur) (files im), [], map fst (files im))"]
    by (simp add: convertToVisualizationData_def st)
  also have "length \<dots> = length (filter (\<lambda>e. cur = Some (fst e)) (files im))"
    by (simp add: filter_map comp_def fileToNode_def)
  finally show ?thesis using at_most_one_key [OF assms, of cur] by simp
qed

lemma keylist_pushImports: "map fst (pushImports p is m) = map fst m"
  by (induction "is" arbitrary: m) (auto simp: keylist_pushImportedBy split: option.splits)

lemma keylist_secondPass: "map fst (secondPass es m) = map fst m"
proof (induction es arbitrary: m)
  case Nil
  then show ?case by simp
next
  case (Cons e es)
  obtain p n where e: "e = (p, n)" by (cases e)
  show ?case by (simp add: e Cons.IH keylist_pushImports)
qed

lemma analyzeProject_distinct:
  assumes "analyzeProject env r = Inr g"
  shows "distinct (map fst (files g))"
proof -
  from assms obtain fs where fs: "scannedFiles env = Some fs"
    by (auto simp: analyzeProject_def Let_def split: option.splits)
  have "distinct (map fst (firstPass env (initAnalyzer env r) r fs []))"
    using firstPass_inv [of "[]" env "initAnalyzer env r" r fs] by simp
  then show ?thesis
    using assms fs by (auto simp: analyzeProject_def Let_def keylist_secondPass)
qed

lemma importerPass_distinct:
  "distinct (map fst m) \<Longrightarrow> distinct (map fst (importerPass env an E r fs m))"
proof (induction fs arbitrary: m)
  case Nil
  then show ?case by simp
next
  case (Cons p fs)
  have "distinct (map fst (pushImportedBy E p (mapSet p v m)))" for v
    using Cons.prems by (simp add: keylist_pushImportedBy distinct_mapSet)
  then show ?case
    using Cons.prems Cons.IH
    by (cases "analyzeFileContent env an p r") auto
qed

lemma dependencyPass_distinct:
  "distinct (map fst m) \<Longrightarrow> distinct (map fst (dependencyPass env an E r is m))"
proof (induction "is" arbitrary: m)
  case Nil
  then show ?case by simp
next
  case (Cons i "is")
  have "distinct (map fst (pushImportedBy t E (mapSet t v m)))" for t v
    using Cons.prems by (simp add: keylist_pushImportedBy distinct_mapSet)
  then show ?case
    using Cons.prems Cons.IH
    by (auto split: option.splits)
qed

lemma analyzeFile_distinct:
  assumes "analyzeFile env E r = Inr g"
  shows "distinct (map fst (files g))"
  using assms
  by (auto simp: analyzeFile_def Let_def split: option.splits
        intro!: dependencyPass_distinct importerPass_distinct)

section \<open>The layout\<close>

subsection \<open>Collision tests\<close>

lemma coordDist_sym: "coordDist a b = coordDist b a"
  by (cases a; cases b) (simp_all add: abs_minus_commute)

lemma nodesOverlap_sym: "nodesOverlap cv a b = nodesOverlap cv b a"
  by (simp add: nodesOverlap_def coordDist_sym [of "posX a"] coordDist_sym [of "posY a"]
        add.commute split: option.splits)

lemma hasPosition_moveTo: "hasPosition (moveTo n px py)"
  by (simp add: hasPosition_def moveTo_def)

lemma spiralSearch_found:
  "spiralSearch cv cur placed node idx l a = Some (px, py) \<Longrightarrow>
   \<not> nodesOverlap cv (moveTo node px py) cur \<and>
   \<not> list_ex (\<lambda>m. hasPosition m \<and> nodesOverlap cv (moveTo node px py) m) placed"
proof (induction "100 - a" arbitrary: l a)
  case 0
  then have "\<not> a < 100" by simp
  then have "spiralSearch cv cur placed node idx l a = None"
    by (subst spiralSearch.simps) simp
  with "0.prems" show ?case by simp
next
  case (Suc n)
  then have a: "a < 100" and n: "n = 100 - (a + 1)" by simp_all
  note IH = Suc.hyps(1) [OF n]
  show ?case
    using Suc.prems a IH
    by (subst (asm) spiralSearch.simps) (auto simp: Let_def split: if_splits)
qed

lemma hasPosition_placeNode: "hasPosition (placeNode cv cur placed t idx n)"
  by (auto simp: placeNode_def Let_def hasPosition_moveTo split: option.splits)

lemma placeOthers_append:
  "\<exists>suffix. placeOthers cv cur t pre rest = pre @ suffix \<and> length suffix = length rest"
proof (induction rest arbitrary: pre)
  case Nil
  then show ?case by simp
next
  case (Cons n rest)
  obtain suffix where
    "placeOthers cv cur t (pre @ [placeNode cv cur pre t (length pre) n]) rest
       = (pre @ [placeNode cv cur pre t (length pre) n]) @ suffix"
    "length suffix = length rest"
    using Cons.IH by blast
  then show ?case by (intro exI [of _ "placeNode cv cur pre t (length pre) n # suffix"]) simp
qed

lemma placeOthers_length: "length (placeOthers cv cur t pre rest) = length pre + length rest"
  using placeOthers_append [of cv cur t pre rest] by auto

lemma placeOthers_take: "take (length pre) (placeOthers cv cur t pre rest) = pre"
  using placeOthers_append [of cv cur t pre rest] by auto

lemma placeOthers_nth:
  "j < length rest \<Longrightarrow>
   placeOthers cv cur t pre rest ! (length pre + j) =
     placeNode cv cur (take (length pre + j) (placeOthers cv cur t pre rest)) t (length pre + j)
       (rest ! j)"
proof (induction rest arbitrary: pre j)
  case Nil
  then show ?case by simp
next
  case (Cons n rest)
  let ?pn = "placeNode cv cur pre t (length pre) n"
  let ?res = "placeOthers cv cur t (pre @ [?pn]) rest"
  have tk: "take (Suc (length pre)) ?res = pre @ [?pn]"
    using placeOthers_take [of "pre @ [?pn]" cv cur t rest] by simp
  show ?case
  proof (cases j)
    case 0
    have "take (length pre) ?res = pre"
      using arg_cong [OF tk, of "take (length pre)"] by (simp add: min_def)
    moreover have "?res ! length pre = ?pn"
      using arg_cong [OF tk, of "\<lambda>xs. xs ! length pre"] by simp
    ultimately show ?thesis using 0 by simp
  next
    case (Suc j')
    then have "j' < length rest" using Cons.prems by simp
    from Cons.IH [OF this, of "pre @ [?pn]"] show ?thesis using Suc by simp
  qed
qed

lemma spiralOthers_nth:
  assumes "j < length (otherNodesOf nodes)"
  shows "spiralOthers cv found nodes ! j =
     placeNode cv (moveTo found (centerX cv) (centerY cv)) (take j (spiralOthers cv found nodes))
       (length (otherNodesOf nodes)) j (otherNodesOf nodes ! j)"
  using placeOthers_nth [OF assms, of cv _ _ "[]"] by (simp add: spiralOthers_def)

lemma spiralOthers_length: "length (spiralOthers cv found nodes) = length (otherNodesOf nodes)"
  by (simp add: spiralOthers_def placeOthers_length)

lemma spiralOthers_hasPosition:
  "i < length (otherNodesOf nodes) \<Longrightarrow> hasPosition (spiralOthers cv found nodes ! i)"
  by (simp add: spiralOthers_nth hasPosition_placeNode)

lemma searched_node_is_free:
  assumes j: "j < length (otherNodesOf nodes)" and s: "placedBySearch cv found nodes j"
  shows "\<not> nodesOverlap cv (spiralOthers cv found nodes ! j)
            (moveTo found (centerX cv) (centerY cv))"
    and "i < j \<Longrightarrow> \<not> nodesOverlap cv (spiralOthers cv found nodes ! j)
            (spiralOthers cv found nodes ! i)"
proof -
  let ?cur = "moveTo found (centerX cv) (centerY cv)"
  let ?placed = "spiralOthers cv found nodes"
  from s obtain px py where
    f: "spiralSearch cv ?cur (take j ?placed) (otherNodesOf nodes ! j) j 0 0 = Some (px, py)"
    by (auto simp: placedBySearch_def)
  have pj: "?placed ! j = moveTo (otherNodesOf nodes ! j) px py"
    by (simp add: spiralOthers_nth [OF j] placeNode_def f)
  from spiralSearch_found [OF f]
  have free: "\<not> nodesOverlap cv (?placed ! j) ?cur"
    "\<not> list_ex (\<lambda>m. hasPosition m \<and> nodesOverlap cv (?placed ! j) m) (take j ?placed)"
    by (simp_all add: pj)
  show "\<not> nodesOverlap cv (?placed ! j) ?cur" by (rule free(1))
  show "\<not> nodesOverlap cv (?placed ! j) (?placed ! i)" if "i < j"
  proof -
    have "?placed ! i \<in> set (take j ?placed)"
      using that j by (auto simp: in_set_conv_nth spiralOthers_length intro!: exI [of _ i])
    moreover have "hasPosition (?placed ! i)"
      using that j by (intro spiralOthers_hasPosition) simp
    ultimately show ?thesis using free(2) by (auto simp: list_ex_iff)
  qed
qed

lemma disjoint_padded_boxes:
  assumes "\<not> nodesOverlap cv a b" and "inPaddedBox cv a p"
  shows "\<not> inPaddedBox cv b p"
proof
  assume b: "inPaddedBox cv b p"
  from assms(2) obtain ax ay where a: "posX a = Num ax" "posY a = Num ay"
    "\<bar>fst p - ax\<bar> < fst (nodeSize cv a) / 2 + 10" "\<bar>snd p - ay\<bar> < snd (nodeSize cv a) / 2 + 10"
    by (auto simp: inPaddedBox_def split: coord.splits)
  from b obtain bx "by" where b': "posX b = Num bx" "posY b = Num by"
    "\<bar>fst p - bx\<bar> < fst (nodeSize cv b) / 2 + 10" "\<bar>snd p - by\<bar> < snd (nodeSize cv b) / 2 + 10"
    by (auto simp: inPaddedBox_def split: coord.splits)
  have "\<bar>ax - bx\<bar> < fst (nodeSize cv a) / 2 + fst (nodeSize cv b) / 2 + 20"
    using a(3) b'(3) by linarith
  moreover have "\<bar>ay - by\<bar> < snd (nodeSize cv a) / 2 + snd (nodeSize cv b) / 2 + 20"
    using a(4) b'(4) by linarith
  ultimately have "nodesOverlap cv a b"
    by (simp add: nodesOverlap_def a(1,2) b'(1,2))
  with assms(1) show False by simp
qed

subsection \<open>Stale positions\<close>

lemma clear_simps [simp]:
  "isCurrentFile (clearPosition n) = isCurrentFile n"
  "nodeId (clearPosition n) = nodeId n"
  "nodeSize cv (clearPosition n) = nodeSize cv n"
  "moveTo (clearPosition n) px py = moveTo n px py"
  "clearPosition (moveTo n px py) = clearPosition n"
  "clearPosition (clearPosition n) = clearPosition n"
  by (simp_all add: clearPosition_def nodeSize_def moveTo_def split: option.splits)

lemma isCurrentFile_moveTo [simp]: "isCurrentFile (moveTo n px py) = isCurrentFile n"
  by (simp add: moveTo_def)

lemma spiralSearch_clear:
  "spiralSearch cv cur placed (clearPosition node) idx l a = spiralSearch cv cur placed node idx l a"
proof (induction "100 - a" arbitrary: l a)
  case 0
  then have "\<not> a < 100" by simp
  then show ?case by (simp add: spiralSearch.simps [of _ _ _ _ _ _ a])
next
  case (Suc n)
  then have n: "n = 100 - (a + 1)" by simp
  note IH = Suc.hyps(1) [OF n]
  show ?case
    by (subst (1 2) spiralSearch.simps) (simp only: IH clear_simps)
qed

lemma placeNode_clear:
  "placeNode cv cur placed t idx (clearPosition n) = placeNode cv cur placed t idx n"
  by (simp add: placeNode_def spiralSearch_clear split: option.splits)

lemma clear_placeNode [simp]:
  "clearPosition (placeNode cv cur placed t idx n) = clearPosition n"
  by (auto simp: placeNode_def Let_def split: option.splits)

lemma isCurrentFile_placeNode [simp]:
  "isCurrentFile (placeNode cv cur placed t idx n) = isCurrentFile n"
  by (auto simp: placeNode_def Let_def split: option.splits)

lemma placeOthers_clear:
  "placeOthers cv cur t pre (map clearPosition rest) = placeOthers cv cur t pre rest"
  by (induction rest arbitrary: pre) (simp_all add: placeNode_clear)

lemma clear_placeOthers:
  "map clearPosition (placeOthers cv cur t pre rest) = map clearPosition (pre @ rest)"
  by (induction rest arbitrary: pre) simp_all

lemma otherNodesOf_clear: "otherNodesOf (map clearPosition ns) = map clearPosition (otherNodesOf ns)"
  by (simp add: otherNodesOf_def filter_map comp_def)

lemma find_clear:
  "find isCurrentFile (map clearPosition ns) = map_option clearPosition (find isCurrentFile ns)"
  by (induction ns) simp_all

lemma mergeBack_clear:
  "length others = length (otherNodesOf ns) \<Longrightarrow>
   length (filter isCurrentFile ns) \<le> (if seen then 0 else 1) \<Longrightarrow>
   mergeBack seen c others (map clearPosition ns) = mergeBack seen c others ns"
proof (induction ns arbitrary: seen others)
  case Nil
  then show ?case by simp
next
  case (Cons n ns)
  show ?case
  proof (cases "isCurrentFile n")
    case True
    then have "\<not> seen" and "length (filter isCurrentFile ns) \<le> (if True then 0 else 1)"
      using Cons.prems(2) by (auto split: if_splits)
    moreover have "length others = length (otherNodesOf ns)"
      using Cons.prems(1) True by (simp add: otherNodesOf_def)
    ultimately show ?thesis using True Cons.IH [of others True] by simp
  next
    case False
    then obtain m ms where others: "others = m # ms" and "length ms = length (otherNodesOf ns)"
      using Cons.prems(1) by (cases others) (auto simp: otherNodesOf_def)
    moreover have "length (filter isCurrentFile ns) \<le> (if seen then 0 else 1)"
      using Cons.prems(2) False by simp
    ultimately show ?thesis using False Cons.IH [of ms seen] by simp
  qed
qed

lemma clear_mergeBack:
  "map clearPosition others = map clearPosition (otherNodesOf ns) \<Longrightarrow>
   (\<not> seen \<longrightarrow> map_option clearPosition (find isCurrentFile ns) \<in> {None, Some (clearPosition c)}) \<Longrightarrow>
   map clearPosition (mergeBack seen c others ns) = map clearPosition ns"
proof (induction ns arbitrary: seen others)
  case Nil
  then show ?case by simp
next
  case (Cons n ns)
  show ?case
  proof (cases "isCurrentFile n")
    case True
    then show ?thesis using Cons.prems Cons.IH [of others True]
      by (auto simp: otherNodesOf_def)
  next
    case False
    then obtain m ms where "others = m # ms" "clearPosition m = clearPosition n"
      "map clearPosition ms = map clearPosition (otherNodesOf ns)"
      using Cons.prems(1) by (cases others) (auto simp: otherNodesOf_def)
    then show ?thesis using False Cons.prems(2) Cons.IH [of ms seen] by simp
  qed
qed

lemma gridNode_clear: "gridNode cv idx (clearPosition n) = gridNode cv idx n"
  by (simp add: gridNode_def Let_def clearPosition_def moveTo_def)

lemma clear_gridNode [simp]: "clearPosition (gridNode cv idx n) = clearPosition n"
  by (simp add: gridNode_def Let_def clearPosition_def moveTo_def)

lemma gridFrom_clear: "gridFrom cv idx (map clearPosition ns) = gridFrom cv idx ns"
  by (induction ns arbitrary: idx) (simp_all add: gridNode_clear)

lemma clear_gridFrom: "map clearPosition (gridFrom cv idx ns) = map clearPosition ns"
  by (induction ns arbitrary: idx) simp_all

lemma layoutSpiral_clear:
  assumes "length (filter isCurrentFile ns) \<le> 1"
  shows "layoutSpiral cv (clearPosition found) (map clearPosition ns) = layoutSpiral cv found ns"
proof -
  have "length (placeOthers cv (moveTo found (centerX cv) (centerY cv))
      (length (otherNodesOf ns)) [] (otherNodesOf ns)) = length (otherNodesOf ns)"
    by (simp add: placeOthers_length)
  then show ?thesis
    using assms
    by (simp add: layoutSpiral_def Let_def otherNodesOf_clear placeOthers_clear mergeBack_clear)
qed

lemma freshLayout_clear:
  "length (filter isCurrentFile ns) \<le> 1 \<Longrightarrow>
   freshLayout cv (map clearPosition ns) = freshLayout cv ns"
  by (cases "find isCurrentFile ns")
     (simp_all add: freshLayout_def find_clear layoutGrid_def gridFrom_clear layoutSpiral_clear)

lemma clear_freshLayout: "map clearPosition (freshLayout cv ns) = map clearPosition ns"
proof (cases "find isCurrentFile ns")
  case None
  then show ?thesis by (simp add: freshLayout_def layoutGrid_def clear_gridFrom)
next
  case (Some found)
  have "map clearPosition (layoutSpiral cv found ns) = map clearPosition ns"
    unfolding layoutSpiral_def Let_def
    by (rule clear_mergeBack) (simp_all add: clear_placeOthers Some)
  then show ?thesis by (simp add: freshLayout_def Some)
qed

lemma current_count_clear:
  "length (filter isCurrentFile (map clearPosition ns)) = length (filter isCurrentFile ns)"
  by (simp add: filter_map comp_def)

lemma layout_ignores_stale:
  assumes "length (filter isCurrentFile ns) \<le> 1"
    and "map clearPosition ns = map clearPosition ns'"
  shows "layoutNodes cv forceNew None ns = layoutNodes cv forceNew None ns'"
    and "layoutNodes cv forceNew None (fst (layoutNodes cv forceNew None ns))
          = layoutNodes cv forceNew None ns"
proof -
  have one': "length (filter isCurrentFile ns') \<le> 1"
    using assms current_count_clear [of ns] current_count_clear [of ns'] by simp
  have fresh: "freshLayout cv ns = freshLayout cv ns'"
    using freshLayout_clear [OF assms(1), of cv] freshLayout_clear [OF one', of cv] assms(2)
    by simp
  have empty: "ns = [] \<longleftrightarrow> ns' = []"
    using arg_cong [OF assms(2), of length] by (metis length_0_conv length_map)
  have ln: "layoutNodes cv forceNew None xs = (if xs = [] then [] else freshLayout cv xs, None)" for xs
    by (simp add: layoutNodes_def loadNodePositions_def)
  show "layoutNodes cv forceNew None ns = layoutNodes cv forceNew None ns'"
    using fresh empty by (simp add: ln)
  have c: "map clearPosition (freshLayout cv ns) = map clearPosition ns"
    by (rule clear_freshLayout)
  have one2: "length (filter isCurrentFile (freshLayout cv ns)) \<le> 1"
    using assms(1) current_count_clear [of ns] current_count_clear [of "freshLayout cv ns"] c
    by simp
  have "freshLayout cv (freshLayout cv ns) = freshLayout cv ns"
    using freshLayout_clear [OF assms(1), of cv] freshLayout_clear [OF one2, of cv] c by simp
  moreover have "freshLayout cv ns = [] \<longleftrightarrow> ns = []"
    using arg_cong [OF c, of length] by (metis length_0_conv length_map)
  ultimately show "layoutNodes cv forceNew None (fst (layoutNodes cv forceNew None ns))
          = layoutNodes cv forceNew None ns"
    by (simp add: ln)
qed

lemma sqrt2_lower: "6 / 5 < sqrt 2"
  by (rule real_less_rsqrt) (simp add: power2_eq_square)

lemma sqrt2_upper: "sqrt 2 < 3 / 2"
  by (rule real_less_lsqrt) (simp_all add: power2_eq_square)

lemma moveTo_pos [simp]: "posX (moveTo n px py) = Num px" "posY (moveTo n px py) = Num py"
  by (simp_all add: moveTo_def)

lemma three_others:
  "otherNodesOf threeNodes = [plainNode ''/p/a.ts'' ''a.ts'' False, plainNode ''/p/b.ts'' ''b.ts'' False]"
  by (simp add: otherNodesOf_def threeNodes_def entryNode_def plainNode_def)

lemma wide_center: "centerX wideCanvas = 500" "centerY wideCanvas = 400"
  by (simp_all add: centerX_def centerY_def wideCanvas_def)

lemma plain_size: "nodeSize wideCanvas (plainNode i l c) = (60, 30)"
  "nodeSize wideCanvas (moveTo (plainNode i l c) px py) = (60, 30)"
  by (simp_all add: nodeSize_def plainNode_def calculateNodeSize_def wideCanvas_def moveTo_def)

lemma search_first:
  "spiralSearch wideCanvas (moveTo entryNode 500 400) [] (plainNode ''/p/a.ts'' ''a.ts'' False) 0 0 0
     = Some (650, 400)"
  by (subst spiralSearch.simps)
     (simp add: wide_center plain_size nodesOverlap_def entryNode_def Let_def)

lemma search_second:
  "spiralSearch wideCanvas (moveTo entryNode 500 400)
     [moveTo (plainNode ''/p/a.ts'' ''a.ts'' False) 650 400]
     (plainNode ''/p/b.ts'' ''b.ts'' False) 1 0 0
     = Some (500 + sqrt 2 / 2 * 150, 400 + sqrt 2 / 2 * 150)"
  using sqrt2_lower sqrt2_upper
  by (subst spiralSearch.simps)
     (simp add: wide_center plain_size nodesOverlap_def entryNode_def cos_45 sin_45
        Let_def hasPosition_moveTo)

lemma others_of_mergeBack:
  "length others = length (otherNodesOf ns) \<Longrightarrow> isCurrentFile c \<Longrightarrow>
   list_all (\<lambda>m. \<not> isCurrentFile m) others \<Longrightarrow>
   otherNodesOf (mergeBack seen c others ns) = others"
proof (induction ns arbitrary: seen others)
  case Nil
  then show ?case by (simp add: otherNodesOf_def)
next
  case (Cons n ns)
  show ?case
  proof (cases "isCurrentFile n")
    case True
    then show ?thesis using Cons.prems Cons.IH [of others True]
      by (auto simp: otherNodesOf_def)
  next
    case False
    then obtain m ms where "others = m # ms" "length ms = length (otherNodesOf ns)"
      using Cons.prems(1) by (cases others) (auto simp: otherNodesOf_def)
    then show ?thesis using False Cons.prems Cons.IH [of ms seen]
      by (auto simp: otherNodesOf_def)
  qed
qed

lemma spiralOthers_not_current: "list_all (\<lambda>m. \<not> isCurrentFile m) (spiralOthers cv found ns)"
proof -
  have "map isCurrentFile (spiralOthers cv found ns) = map isCurrentFile (otherNodesOf ns)"
    using arg_cong [OF clear_placeOthers [of cv "moveTo found (centerX cv) (centerY cv)"
        "length (otherNodesOf ns)" "[]" "otherNodesOf ns"], of "map isCurrentFile"]
    by (simp add: spiralOthers_def comp_def)
  moreover have "list_all (\<lambda>b. \<not> b) (map isCurrentFile (otherNodesOf ns))"
    by (simp add: otherNodesOf_def list_all_iff)
  ultimately show ?thesis by (simp add: list_all_iff) (metis (mono_tags, lifting) image_iff list.set_map)
qed

lemma spiral_layout_others:
  assumes "find isCurrentFile ns = Some found"
  shows "otherNodesOf (freshLayout cv ns) = spiralOthers cv found ns"
proof -
  have "isCurrentFile found" using assms by (auto simp: find_Some_iff)
  then show ?thesis
    using spiralOthers_not_current [of cv found ns]
    by (simp add: freshLayout_def assms layoutSpiral_def Let_def others_of_mergeBack
          spiralOthers_def placeOthers_length)
qed

lemma search_second_Suc:
  "spiralSearch wideCanvas (moveTo entryNode 500 400)
     [moveTo (plainNode ''/p/a.ts'' ''a.ts'' False) 650 400]
     (plainNode ''/p/b.ts'' ''b.ts'' False) (Suc 0) 0 0
     = Some (500 + sqrt 2 / 2 * 150, 400 + sqrt 2 / 2 * 150)"
  using search_second by simp

lemma spiral_others_evaluated:
  "spiralOthers wideCanvas entryNode threeNodes =
     [moveTo (plainNode ''/p/a.ts'' ''a.ts'' False) 650 400,
      moveTo (plainNode ''/p/b.ts'' ''b.ts'' False) (500 + sqrt 2 / 2 * 150) (400 + sqrt 2 / 2 * 150)]"
  by (simp add: spiralOthers_def three_others wide_center placeNode_def search_first
        search_second_Suc)

lemma three_searched:
  "placedBySearch wideCanvas entryNode threeNodes 0"
  "placedBySearch wideCanvas entryNode threeNodes 1"
  by (simp_all add: placedBySearch_def spiral_others_evaluated three_others wide_center
        search_first search_second_Suc)

subsection \<open>Claim C6: collision avoidance\<close>

text \<open>
  Claim C6. For any two nodes that the spiral layout places without the fallback
  placement, the collision test of the layout is negative in both directions, and
  their padded bounding boxes, sized from the label measurement plus padding and clamped
  to the minimum box size, have no point in common; the same holds for each of them
  and the entry node at the centre.
\<close>

theorem spiral_placed_nodes_do_not_overlap:
  assumes "i < j" and "j < length (otherNodesOf nodes)"
    and "placedBySearch cv found nodes i" and "placedBySearch cv found nodes j"
  shows "\<not> nodesOverlap cv (spiralOthers cv found nodes ! i) (spiralOthers cv found nodes ! j)
       \<and> \<not> nodesOverlap cv (spiralOthers cv found nodes ! j) (spiralOthers cv found nodes ! i)
       \<and> \<not> nodesOverlap cv (spiralOthers cv found nodes ! i)
             (moveTo found (centerX cv) (centerY cv))
       \<and> \<not> nodesOverlap cv (spiralOthers cv found nodes ! j)
             (moveTo found (centerX cv) (centerY cv))
       \<and> \<not> (inPaddedBox cv (spiralOthers cv found nodes ! i) p
             \<and> inPaddedBox cv (spiralOthers cv found nodes ! j) p)"
proof -
  have i: "i < length (otherNodesOf nodes)" using assms(1,2) by simp
  show ?thesis
    using searched_node_is_free(2) [OF assms(2,4,1)]
      searched_node_is_free(1) [OF assms(2,4)] searched_node_is_free(1) [OF i assms(3)]
      disjoint_padded_boxes [of cv "spiralOthers cv found nodes ! j"
        "spiralOthers cv found nodes ! i" p]
    by (auto simp: nodesOverlap_sym [of cv "spiralOthers cv found nodes ! i"])
qed

theorem spiral_placed_nodes_do_not_overlap_witness:
  "(0::nat) < 1 \<and> 1 < length (otherNodesOf threeNodes)
   \<and> placedBySearch wideCanvas entryNode threeNodes 0
   \<and> placedBySearch wideCanvas entryNode threeNodes 1
   \<and> spiralOthers wideCanvas entryNode threeNodes =
       [moveTo (plainNode ''/p/a.ts'' ''a.ts'' False) 650 400,
        moveTo (plainNode ''/p/b.ts'' ''b.ts'' False)
          (500 + sqrt 2 / 2 * 150) (400 + sqrt 2 / 2 * 150)]
   \<and> \<not> nodesOverlap wideCanvas (spiralOthers wideCanvas entryNode threeNodes ! 0)
         (spiralOthers wideCanvas entryNode threeNodes ! 1)"
  using spiral_placed_nodes_do_not_overlap [of 0 1 threeNodes wideCanvas entryNode]
    three_searched spiral_others_evaluated
  by (simp add: three_others)

subsection \<open>Claim C9: the layout is reproducible\<close>

text \<open>
  Claim C9. The initial layout is deterministic. With no persisted positions, the
  coordinates that a run of the layout assigns depend on the ids, labels, sizes and
  flags of the nodes and on the canvas only, not on the coordinates that an earlier run
  or a drag has left in the nodes: two node lists that agree up to their coordinates get
  the same layout, and a second run on the result of the first returns the same layout
  again. At most one node is the current file, as in every node list that the
  conversion builds from a map of files.
\<close>

theorem layout_is_reproducible:
  assumes "length (filter isCurrentFile ns) \<le> 1"
    and "map clearPosition ns = map clearPosition ns'"
  shows "layoutNodes cv forceNew None ns = layoutNodes cv forceNew None ns'
       \<and> layoutNodes cv forceNew None (fst (layoutNodes cv forceNew None ns))
           = layoutNodes cv forceNew None ns"
  using layout_ignores_stale [OF assms] by simp

theorem layout_is_reproducible_witness:
  "length (filter isCurrentFile threeNodes) \<le> 1
   \<and> map clearPosition threeNodes = map clearPosition (map (\<lambda>n. moveTo n 1 2) threeNodes)
   \<and> layoutNodes wideCanvas False None threeNodes
       = layoutNodes wideCanvas False None (map (\<lambda>n. moveTo n 1 2) threeNodes)
   \<and> layoutNodes wideCanvas False None (fst (layoutNodes wideCanvas False None threeNodes))
       = layoutNodes wideCanvas False None threeNodes"
proof -
  have 1: "length (filter isCurrentFile threeNodes) \<le> 1"
    by (simp add: threeNodes_def entryNode_def plainNode_def)
  have 2: "map clearPosition threeNodes = map clearPosition (map (\<lambda>n. moveTo n 1 2) threeNodes)"
    by simp
  from layout_is_reproducible [OF 1 2, of wideCanvas False] 1 2 show ?thesis
    by blast
qed

subsection \<open>Claim C5: persisted positions\<close>

lemma layout_below_threshold:
  "ns \<noteq> [] \<Longrightarrow> belowThreshold positions ns \<Longrightarrow>
   layoutNodes cv False (Some positions) ns = (freshLayout cv ns, None)"
  by (simp add: layoutNodes_def loadNodePositions_def)

lemma layout_reuses_positions:
  "ns \<noteq> [] \<Longrightarrow> \<not> belowThreshold positions ns \<Longrightarrow>
   list_ex (\<lambda>n. map_of positions (nodeId n) \<noteq> None) ns \<Longrightarrow>
   layoutNodes cv False (Some positions) ns = (map (restoreNode positions) ns, Some positions)"
  by (simp add: layoutNodes_def loadNodePositions_def)

lemma hasPosition_gridNode: "hasPosition (gridNode cv idx n)"
  by (simp add: gridNode_def Let_def hasPosition_def moveTo_def)

lemma hasPosition_gridFrom: "list_all hasPosition (gridFrom cv idx ns)"
  by (induction ns arbitrary: idx) (simp_all add: hasPosition_gridNode)

lemma hasPosition_placeOthers:
  "list_all hasPosition pre \<Longrightarrow> list_all hasPosition (placeOthers cv cur t pre rest)"
  by (induction rest arbitrary: pre) (simp_all add: hasPosition_placeNode)

lemma hasPosition_mergeBack:
  "length others = length (otherNodesOf ns) \<Longrightarrow>
   length (filter isCurrentFile ns) \<le> (if seen then 0 else 1) \<Longrightarrow>
   hasPosition c \<Longrightarrow> list_all hasPosition others \<Longrightarrow>
   list_all hasPosition (mergeBack seen c others ns)"
proof (induction ns arbitrary: seen others)
  case Nil
  then show ?case by simp
next
  case (Cons n ns)
  show ?case
  proof (cases "isCurrentFile n")
    case True
    then have "\<not> seen" and "length (filter isCurrentFile ns) \<le> (if True then 0 else 1)"
      using Cons.prems(2) by (auto split: if_splits)
    moreover have "length others = length (otherNodesOf ns)"
      using Cons.prems(1) True by (simp add: otherNodesOf_def)
    ultimately show ?thesis using True Cons.prems(3,4) Cons.IH [of others True] by simp
  next
    case False
    then obtain m ms where "others = m # ms" "length ms = length (otherNodesOf ns)"
      using Cons.prems(1) by (cases others) (auto simp: otherNodesOf_def)
    moreover have "length (filter isCurrentFile ns) \<le> (if seen then 0 else 1)"
      using Cons.prems(2) False by simp
    ultimately show ?thesis using False Cons.prems(3,4) Cons.IH [of ms seen] by simp
  qed
qed

lemma fresh_layout_places_all:
  assumes "length (filter isCurrentFile ns) \<le> 1"
  shows "list_all hasPosition (freshLayout cv ns)"
proof (cases "find isCurrentFile ns")
  case None
  then show ?thesis by (simp add: freshLayout_def layoutGrid_def hasPosition_gridFrom)
next
  case (Some found)
  show ?thesis
    unfolding freshLayout_def Some option.case layoutSpiral_def Let_def
    using assms
    by (intro hasPosition_mergeBack)
       (simp_all add: placeOthers_length hasPosition_moveTo hasPosition_placeOthers)
qed

lemma eight_six: "\<not> belowThreshold eightSaved (nodesNamed 6)"
  by (simp add: belowThreshold_def sharedIds_def eightSaved_def nodesNamed_def eightIds_def
        plainNode_def)

lemma eight_five: "belowThreshold eightSaved (nodesNamed 5)"
  by (simp add: belowThreshold_def sharedIds_def eightSaved_def nodesNamed_def eightIds_def
        plainNode_def)

lemma eight_saved_six_shared:
  "layoutNodes cv False (Some eightSaved) (nodesNamed 6)
     = (map (restoreNode eightSaved) (nodesNamed 6), Some eightSaved)"
proof (rule layout_reuses_positions)
  show "nodesNamed 6 \<noteq> []" by (simp add: nodesNamed_def eightIds_def)
  show "\<not> belowThreshold eightSaved (nodesNamed 6)" by (rule eight_six)
  show "list_ex (\<lambda>n. map_of eightSaved (nodeId n) \<noteq> None) (nodesNamed 6)"
    by (simp add: nodesNamed_def eightIds_def eightSaved_def plainNode_def)
qed

lemma eight_saved_five_shared:
  "layoutNodes cv False (Some eightSaved) (nodesNamed 5) = (freshLayout cv (nodesNamed 5), None)"
proof (rule layout_below_threshold)
  show "nodesNamed 5 \<noteq> []" by (simp add: nodesNamed_def eightIds_def)
  show "belowThreshold eightSaved (nodesNamed 5)" by (rule eight_five)
qed

text \<open>
  Claim C5 at a failing input. Four current nodes, of which \<open>d.ts\<close> is new, and
  persisted positions for the other three: three of four ids are shared, which is not
  below the threshold, so the three positions are copied and the layout returns at
  once. The new node has no persisted entry and receives no placement: its coordinates
  stay undefined, also after \<open>initCanvas\<close> as a whole.
\<close>

theorem restore_leaves_new_node_unplaced:
  "\<not> belowThreshold threeSaved fourNodes
   \<and> layoutNodes cv False (Some threeSaved) fourNodes =
       ([moveTo entryNode 500 400, moveTo (plainNode ''/p/a.ts'' ''a.ts'' False) 650 400,
         moveTo (plainNode ''/p/b.ts'' ''b.ts'' False) 500 550,
         plainNode ''/p/d.ts'' ''d.ts'' False], Some threeSaved)
   \<and> posX (plainNode ''/p/d.ts'' ''d.ts'' False) = Undefined
   \<and> posY (plainNode ''/p/d.ts'' ''d.ts'' False) = Undefined
   \<and> map posX (fst (initCanvas cv (Some threeSaved) fourNodes))
       = [Num 500, Num 650, Num 500, Undefined]
   \<and> map posY (fst (initCanvas cv (Some threeSaved) fourNodes))
       = [Num 400, Num 400, Num 550, Undefined]"
  by (simp add: belowThreshold_def sharedIds_def threeSaved_def fourNodes_def entryNode_def
        plainNode_def layoutNodes_def loadNodePositions_def restoreNode_def moveTo_def
        initCanvas_def hasPosition_def)

end
